theory Spec2Isabelle
  imports Complex_Main "HOL-Library.Sublist"
begin

section \<open>JavaScript values and objects\<close>

text \<open>
  The run orchestrator of \<^verbatim>\<open>lighthouse-core/runner.js\<close> works on plain JavaScript
  data. Values that the runner only passes around (artifact payloads, audit options,
  audit details, setting values) are elements of \<open>jsval\<close>. Numbers are rationals:
  the finite doubles are rationals, and NaN and the infinities are left out.
  An object is the list of its own enumerable properties in enumeration order; its
  keys are pairwise different.
\<close>

datatype jsval =
    JUndefined
  | JNull
  | JBool bool
  | JNum rat
  | JStr string
  | JArr "jsval list"
  | JObj "(string \<times> jsval) list"

type_synonym js_object = "(string \<times> jsval) list"

text \<open>JavaScript truthiness, as \<^verbatim>\<open>if (x)\<close>, \<^verbatim>\<open>!x\<close>, \<^verbatim>\<open>x && y\<close> and \<^verbatim>\<open>x || y\<close> decide it.\<close>

fun truthy :: "jsval \<Rightarrow> bool" where
  "truthy JUndefined = False"
| "truthy JNull = False"
| "truthy (JBool b) = b"
| "truthy (JNum n) = (n \<noteq> 0)"
| "truthy (JStr s) = (s \<noteq> [])"
| "truthy (JArr xs) = True"
| "truthy (JObj ps) = True"

text \<open>A property that may be \<^verbatim>\<open>undefined\<close> is an option; \<^verbatim>\<open>undefined\<close> is falsy.\<close>

fun truthy_prop :: "jsval option \<Rightarrow> bool" where
  "truthy_prop None = False"
| "truthy_prop (Some v) = truthy v"

text \<open>A string that may be \<^verbatim>\<open>undefined\<close>: truthy when defined and not empty.\<close>

fun truthy_str :: "string option \<Rightarrow> bool" where
  "truthy_str None = False"
| "truthy_str (Some s) = (s \<noteq> [])"

text \<open>
  Structural equality of two values, as the package \<^verbatim>\<open>lodash.isequal\<close> decides it (the
  source requires it under the name \<^verbatim>\<open>isDeepEqual\<close>): two objects
  are equal when they have the same keys and equal values under each key, whatever the
  order of the keys, at every depth; two arrays are equal when they are equal element
  by element; any other two values are equal when they are the same.
\<close>

function (sequential) deepEqual :: "jsval \<Rightarrow> jsval \<Rightarrow> bool" where
  "deepEqual (JObj xs) (JObj ys) \<longleftrightarrow>
     set (map fst xs) = set (map fst ys) \<and>
     (\<forall>k \<in> set (map fst xs). rel_option deepEqual (map_of xs k) (map_of ys k))"
| "deepEqual (JArr xs) (JArr ys) \<longleftrightarrow> list_all2 deepEqual xs ys"
| "deepEqual a b \<longleftrightarrow> a = b"
  by pat_completeness auto
termination
proof -
  have value_smaller:
    "map_of xs k = Some v \<Longrightarrow> size v < Suc (size_list (size_prod (\<lambda>_. 0) size) xs)"
    for xs :: "(string \<times> jsval) list" and k v
    by (induction xs) (auto split: if_splits)
  have member_smaller: "z \<in> set xs \<Longrightarrow> size z < Suc (size_list size xs)"
    for xs :: "jsval list" and z
    by (induction xs) auto
  show ?thesis
    by (relation "measure (\<lambda>(a, b). size a)") (auto simp: value_smaller member_smaller)
qed

text \<open>
  \<^verbatim>\<open>obj[k] = v\<close>: an existing property keeps its place and takes the new value, a new
  property goes to the end. \<^verbatim>\<open>Map.prototype.set\<close> orders its entries the same way.
  (An object enumerates keys that are array indices before the others; no name of an
  artifact, an option or an audit is one.)
\<close>

primrec set_prop :: "'k \<Rightarrow> 'a \<Rightarrow> ('k \<times> 'a) list \<Rightarrow> ('k \<times> 'a) list" where
  "set_prop k v [] = [(k, v)]"
| "set_prop k v (p # ps) = (if fst p = k then (k, v) # ps else p # set_prop k v ps)"

text \<open>\<^verbatim>\<open>Object.assign(target, source)\<close>: the source's properties are set in its order.\<close>

definition Object_assign :: "('k \<times> 'a) list \<Rightarrow> ('k \<times> 'a) list \<Rightarrow> ('k \<times> 'a) list" where
  "Object_assign target source = fold (\<lambda>(k, v) obj. set_prop k v obj) source target"

section \<open>Errors\<close>

text \<open>
  An \<^verbatim>\<open>Error\<close> carries its \<^verbatim>\<open>message\<close> and, as a non-standard property, may carry a
  \<^verbatim>\<open>friendlyMessage\<close>. \<^verbatim>\<open>LHError\<close> extends \<^verbatim>\<open>Error\<close> with a \<^verbatim>\<open>code\<close> and the
  \<^verbatim>\<open>lhrRuntimeError\<close> flag. The \<^verbatim>\<open>expected\<close> mark that \<^verbatim>\<open>_runAudit\<close> puts on one of
  its errors is read by the crash reporter only and is left out, as are the reports
  to Sentry and the \<^verbatim>\<open>log.warn\<close> lines.
\<close>

record error_obj =
  message :: string
  friendlyMessage :: "string option"

record lh_error = error_obj +
  code :: string
  lhrRuntimeError :: bool

definition new_Error :: "string \<Rightarrow> error_obj" where
  "new_Error msg = \<lparr>message = msg, friendlyMessage = None\<rparr>"

text \<open>\<^verbatim>\<open>err.friendlyMessage || err.message\<close>, also written with \<^verbatim>\<open>? :\<close> in the source.\<close>

definition friendly_or_message :: "'a error_obj_scheme \<Rightarrow> string" where
  "friendly_or_message err =
     (if truthy_str (friendlyMessage err) then the (friendlyMessage err) else message err)"

section \<open>The artifact set\<close>

text \<open>
  \<^verbatim>\<open>LH.Artifacts\<close> is one object. Its base slots have the shapes their types give them
  (\<^verbatim>\<open>URL\<close>, \<^verbatim>\<open>settings\<close>, \<^verbatim>\<open>Timing\<close>, \<^verbatim>\<open>LighthouseRunWarnings\<close>); a gatherer's slot holds
  the gathered data, or the error the gatherer failed with. A key that is not in the
  list reads as \<^verbatim>\<open>undefined\<close>; no slot of the list holds \<^verbatim>\<open>undefined\<close>.
\<close>

record url_artifact =
  requestedUrl :: "string option"
  finalUrl :: string

record timing_entry =
  startTime :: rat
  name :: string
  duration :: rat
  entryType :: string

datatype artifact =
    Data jsval
  | ErrorArtifact error_obj
  | LHErrorArtifact lh_error
  | URLArtifact url_artifact
  | SettingsArtifact js_object
  | TimingArtifact "timing_entry list"
  | WarningsArtifact "string list"

type_synonym artifacts = "(string \<times> artifact) list"

text \<open>\<^verbatim>\<open>artifacts[name]\<close>\<close>

definition artifact_at :: "artifacts \<Rightarrow> string \<Rightarrow> artifact option" where
  "artifact_at arts n = map_of arts n"

text \<open>\<^verbatim>\<open>Object.values(artifacts)\<close>\<close>

definition Object_values :: "('k \<times> 'a) list \<Rightarrow> 'a list" where
  "Object_values obj = map snd obj"

section \<open>\<^verbatim>\<open>Runner.getArtifactRuntimeError\<close>\<close>

record runtime_error =
  rt_code :: string
  rt_message :: string

text \<open>\<^verbatim>\<open>x instanceof LHError && x.lhrRuntimeError\<close>, for a list element that may be undefined.\<close>

fun isRuntimeError :: "artifact option \<Rightarrow> bool" where
  "isRuntimeError (Some (LHErrorArtifact e)) = lhrRuntimeError e"
| "isRuntimeError _ = False"

definition toRuntimeError :: "lh_error \<Rightarrow> runtime_error" where
  "toRuntimeError e = \<lparr>rt_code = code e, rt_message = friendly_or_message e\<rparr>"

definition possibleErrorArtifacts :: "artifacts \<Rightarrow> artifact option list" where
  "possibleErrorArtifacts arts =
     artifact_at arts ''PageLoadError'' # map Some (Object_values arts)"

text \<open>The \<^verbatim>\<open>for\<close> loop: the first element that is a flagged \<^verbatim>\<open>LHError\<close> is returned.\<close>

fun scanErrorArtifacts :: "artifact option list \<Rightarrow> runtime_error option" where
  "scanErrorArtifacts [] = None"
| "scanErrorArtifacts (x # rest) =
     (case x of
        Some (LHErrorArtifact e) \<Rightarrow>
          if lhrRuntimeError e then Some (toRuntimeError e) else scanErrorArtifacts rest
      | _ \<Rightarrow> scanErrorArtifacts rest)"

definition getArtifactRuntimeError :: "artifacts \<Rightarrow> runtime_error option" where
  "getArtifactRuntimeError arts = scanErrorArtifacts (possibleErrorArtifacts arts)"

text \<open>
  The extractor as the specification words it: the \<^verbatim>\<open>PageLoadError\<close> slot is scanned,
  and every value of the set is scanned only when that slot is absent.
\<close>

definition getArtifactRuntimeError_as_specified :: "artifacts \<Rightarrow> runtime_error option" where
  "getArtifactRuntimeError_as_specified arts =
     (case artifact_at arts ''PageLoadError'' of
        Some v \<Rightarrow> scanErrorArtifacts [Some v]
      | None \<Rightarrow> scanErrorArtifacts (map Some (Object_values arts)))"

text \<open>The flagged error markers among a list of values, in the list's order.\<close>

fun runtimeErrorsOf :: "artifact list \<Rightarrow> lh_error list" where
  "runtimeErrorsOf [] = []"
| "runtimeErrorsOf (LHErrorArtifact e # vs) =
     (if lhrRuntimeError e then e # runtimeErrorsOf vs else runtimeErrorsOf vs)"
| "runtimeErrorsOf (_ # vs) = runtimeErrorsOf vs"

text \<open>The first of them, as the extractor returns it.\<close>

definition firstRuntimeError :: "artifact list \<Rightarrow> runtime_error option" where
  "firstRuntimeError vs =
     (case runtimeErrorsOf vs of [] \<Rightarrow> None | e # _ \<Rightarrow> Some (toRuntimeError e))"

section \<open>Audits\<close>

record audit_meta =
  meta_id :: string
  title :: string
  requiredArtifacts :: "string list"

record audit_product =
  score :: "rat option"
  details :: jsval

text \<open>
  The two members of \<^verbatim>\<open>LH.Audit.Context\<close> that all audits of a run share by reference
  and may change: the warnings array and the cache of computed artifacts.
\<close>

record shared_state =
  LighthouseRunWarnings :: "string list"
  computedCache :: js_object

text \<open>\<^verbatim>\<open>auditContext = {options: auditOptions, ...sharedAuditContext}\<close>\<close>

record audit_context = shared_state +
  settings :: js_object
  options :: js_object

text \<open>
  An audit's \<^verbatim>\<open>audit(artifacts, context)\<close> is any function of the artifacts and the
  context it is given: it returns a product or throws an \<^verbatim>\<open>Error\<close>, and leaves the
  shared members as it has changed them.
\<close>

type_synonym audit_fn =
  "artifacts \<Rightarrow> audit_context \<Rightarrow> (error_obj + audit_product) \<times> shared_state"

record audit_impl =
  meta :: audit_meta
  defaultOptions :: js_object
  audit :: audit_fn

text \<open>\<^verbatim>\<open>LH.Config.AuditDefn\<close>; \<^verbatim>\<open>defn_options\<close> is empty where the source has no \<^verbatim>\<open>options\<close>.\<close>

record auditDefn =
  implementation :: audit_impl
  defn_options :: js_object

record audit_result =
  ar_id :: string
  ar_score :: "rat option"
  ar_details :: "jsval option"
  errorMessage :: "string option"

text \<open>
  Modelled from the spec: \<^verbatim>\<open>Audit.generateAuditResult\<close> and
  \<^verbatim>\<open>Audit.generateErrorAuditResult\<close> of \<^verbatim>\<open>audits/audit.js\<close>, which is not among the
  sources. The spec has the result-generation step map the raw product into
  \<open>{id, score, details}\<close>, has every result carry its definition's id, and has an error
  result carry the message in place of a score.
\<close>

definition generateAuditResult :: "audit_impl \<Rightarrow> audit_product \<Rightarrow> audit_result" where
  "generateAuditResult a product =
     \<lparr>ar_id = meta_id (meta a), ar_score = score product,
      ar_details = Some (details product), errorMessage = None\<rparr>"

definition generateErrorAuditResult :: "audit_impl \<Rightarrow> string \<Rightarrow> audit_result" where
  "generateErrorAuditResult a msg =
     \<lparr>ar_id = meta_id (meta a), ar_score = None, ar_details = None, errorMessage = Some msg\<rparr>"

text \<open>
  Modelled from the spec: \<^verbatim>\<open>Audit.DEFAULT_PASS\<close> of \<^verbatim>\<open>audits/audit.js\<close>, the name of
  the default-pass sub-entry of the \<^verbatim>\<open>traces\<close> artifact.
\<close>

definition DEFAULT_PASS :: string where
  "DEFAULT_PASS = ''defaultPass''"

text \<open>
  \<^verbatim>\<open>artifactName === 'traces' && !artifacts.traces[Audit.DEFAULT_PASS]\<close>. Reading a
  property of \<^verbatim>\<open>undefined\<close> or \<^verbatim>\<open>null\<close> throws a \<^verbatim>\<open>TypeError\<close> (its message is the
  engine's); a value that is not an object with that property reads as
  \<^verbatim>\<open>undefined\<close>.
\<close>

definition TypeError_reading :: "string \<Rightarrow> string \<Rightarrow> error_obj" where
  "TypeError_reading prop of_what =
     new_Error (''Cannot read property '' @ [CHR 0x27] @ prop @ [CHR 0x27] @ '' of '' @ of_what)"

definition noTrace :: "string \<Rightarrow> artifacts \<Rightarrow> error_obj + bool" where
  "noTrace artifactName arts =
     (if artifactName \<noteq> ''traces'' then Inr False
      else case artifact_at arts ''traces'' of
             None \<Rightarrow> Inl (TypeError_reading DEFAULT_PASS ''undefined'')
           | Some (Data JNull) \<Rightarrow> Inl (TypeError_reading DEFAULT_PASS ''null'')
           | Some (Data (JObj ps)) \<Rightarrow> Inr (\<not> truthy_prop (map_of ps DEFAULT_PASS))
           | Some _ \<Rightarrow> Inr True)"

text \<open>\<^verbatim>\<open>artifacts[artifactName] instanceof Error\<close>, and the error's message.\<close>

fun artifactError :: "artifact option \<Rightarrow> string option" where
  "artifactError (Some (ErrorArtifact e)) = Some (message e)"
| "artifactError (Some (LHErrorArtifact e)) = Some (message e)"
| "artifactError _ = None"

text \<open>
  The loop over \<^verbatim>\<open>audit.meta.requiredArtifacts\<close> at the head of \<^verbatim>\<open>_runAudit\<close>'s
  \<^verbatim>\<open>try\<close> block: \<open>Some err\<close> is the error it throws, \<open>None\<close> is the loop running through.
\<close>

fun checkRequiredArtifacts :: "string list \<Rightarrow> artifacts \<Rightarrow> error_obj option" where
  "checkRequiredArtifacts [] arts = None"
| "checkRequiredArtifacts (artifactName # rest) arts =
     (let noArtifact = (artifact_at arts artifactName = None) in
      (case noTrace artifactName arts of
         Inl typeError \<Rightarrow> Some typeError
       | Inr noTrace' \<Rightarrow>
           if noArtifact \<or> noTrace'
           then Some (new_Error (''Required '' @ artifactName @ '' gatherer did not run.''))
           else (case artifactError (artifact_at arts artifactName) of
                   Some msg \<Rightarrow>
                     Some (new_Error (''Required '' @ artifactName @
                                      '' gatherer encountered an error: '' @ msg))
                 | None \<Rightarrow> checkRequiredArtifacts rest arts)))"

text \<open>
  The two conditions as the specification names them: a required artifact is missing
  when its key is not in the set, or when it is \<^verbatim>\<open>traces\<close> and the set has no
  default-pass trace; the required artifacts are in good shape when none is missing
  and none is an error.
\<close>

definition hasDefaultPass :: "artifacts \<Rightarrow> bool" where
  "hasDefaultPass arts =
     (case artifact_at arts ''traces'' of
        Some (Data (JObj ps)) \<Rightarrow> truthy_prop (map_of ps DEFAULT_PASS)
      | _ \<Rightarrow> False)"

definition missingArtifact :: "artifacts \<Rightarrow> string \<Rightarrow> bool" where
  "missingArtifact arts n \<longleftrightarrow>
     artifact_at arts n = None \<or> (n = ''traces'' \<and> \<not> hasDefaultPass arts)"

definition requiredArtifactsOk :: "artifacts \<Rightarrow> string list \<Rightarrow> bool" where
  "requiredArtifactsOk arts names \<longleftrightarrow>
     (\<forall>n \<in> set names. \<not> missingArtifact arts n \<and> artifactError (artifact_at arts n) = None)"

text \<open>
  The \<^verbatim>\<open>reduce\<close> that builds the object handed to the audit:
  \<^verbatim>\<open>requiredArtifacts[artifactName] = artifacts[artifactName]\<close> for each declared name.
  It runs after the loop above, so every name it reads is in the set.
\<close>

definition pickRequiredArtifacts :: "string list \<Rightarrow> artifacts \<Rightarrow> artifacts" where
  "pickRequiredArtifacts names arts =
     fold (\<lambda>artifactName picked.
             case artifact_at arts artifactName of
               Some v \<Rightarrow> set_prop artifactName v picked
             | None \<Rightarrow> picked)
          names []"

datatype log_event = Time string | TimeEnd string

text \<open>
  The \<^verbatim>\<open>try\<close> and \<^verbatim>\<open>catch\<close> blocks of \<^verbatim>\<open>Runner._runAudit\<close>: the audit's result, and
  the shared members as the audit has left them.
\<close>

definition auditOutcome ::
  "auditDefn \<Rightarrow> artifacts \<Rightarrow> js_object \<Rightarrow> shared_state \<Rightarrow> audit_result \<times> shared_state" where
  "auditOutcome defn arts sett shared =
     (let a = implementation defn in
      (case checkRequiredArtifacts (requiredArtifacts (meta a)) arts of
         Some err \<Rightarrow> (generateErrorAuditResult a (friendly_or_message err), shared)
       | None \<Rightarrow>
           (let auditOptions = Object_assign (Object_assign [] (defaultOptions a))
                                  (defn_options defn);
                auditContext = \<lparr>LighthouseRunWarnings = LighthouseRunWarnings shared,
                                computedCache = computedCache shared,
                                settings = sett, options = auditOptions\<rparr>;
                picked = pickRequiredArtifacts (requiredArtifacts (meta a)) arts
            in (case audit a picked auditContext of
                  (Inr product, after) \<Rightarrow> (generateAuditResult a product, after)
                | (Inl err, after) \<Rightarrow>
                    (generateErrorAuditResult a (friendly_or_message err), after)))))"

text \<open>
  \<^verbatim>\<open>Runner._runAudit\<close>. The state is the shared members and the log of the
  \<^verbatim>\<open>log.time\<close> and \<^verbatim>\<open>log.timeEnd\<close> calls made so far (by status id).
\<close>

definition runAudit ::
  "auditDefn \<Rightarrow> artifacts \<Rightarrow> js_object \<Rightarrow> shared_state \<times> log_event list
     \<Rightarrow> audit_result \<times> shared_state \<times> log_event list" where
  "runAudit defn arts sett st =
     (let status_id = ''lh:audit:'' @ meta_id (meta (implementation defn));
          outcome = auditOutcome defn arts sett (fst st)
      in (fst outcome, snd outcome, snd st @ [Time status_id, TimeEnd status_id]))"

text \<open>The \<^verbatim>\<open>for\<close> loop of \<^verbatim>\<open>_runAudits\<close>: one audit after the other, results pushed in order.\<close>

fun runAuditsLoop ::
  "auditDefn list \<Rightarrow> artifacts \<Rightarrow> js_object \<Rightarrow> shared_state \<times> log_event list
     \<Rightarrow> audit_result list \<times> shared_state \<times> log_event list" where
  "runAuditsLoop [] arts sett st = ([], st)"
| "runAuditsLoop (defn # rest) arts sett st =
     (case runAudit defn arts sett st of
        (auditResult, st') \<Rightarrow>
          (case runAuditsLoop rest arts sett st' of
             (auditResults, st'') \<Rightarrow> (auditResult # auditResults, st'')))"

text \<open>
  The settings check at the head of \<^verbatim>\<open>_runAudits\<close>. The overrides set five properties
  to \<^verbatim>\<open>undefined\<close>; \<^verbatim>\<open>isDeepEqual\<close> is lodash's \<^verbatim>\<open>isEqual\<close> on the two normalized
  objects.
\<close>

definition overrides :: js_object where
  "overrides =
     [(''locale'', JUndefined), (''gatherMode'', JUndefined), (''auditMode'', JUndefined),
      (''output'', JUndefined), (''budgets'', JUndefined)]"


definition normalizedSettings :: "js_object \<Rightarrow> js_object" where
  "normalizedSettings s = Object_assign (Object_assign [] s) overrides"

definition isDeepEqual :: "js_object \<Rightarrow> js_object \<Rightarrow> bool" where
  "isDeepEqual a b \<longleftrightarrow> deepEqual (JObj a) (JObj b)"

definition settingsChanged :: "artifacts \<Rightarrow> js_object \<Rightarrow> bool" where
  "settingsChanged arts sett =
     (case artifact_at arts ''settings'' of
        Some (SettingsArtifact gatherSettings) \<Rightarrow>
          \<not> isDeepEqual (normalizedSettings gatherSettings) (normalizedSettings sett)
      | _ \<Rightarrow> False)"

text \<open>
  \<^verbatim>\<open>Runner._runAudits\<close>. It returns what it returns or throws, the warnings array as
  the audits have left it, and the log.
\<close>

definition runAudits ::
  "js_object \<Rightarrow> auditDefn list \<Rightarrow> artifacts \<Rightarrow> string list \<Rightarrow> log_event list
     \<Rightarrow> (error_obj + audit_result list) \<times> string list \<times> log_event list" where
  "runAudits sett audits arts runWarnings lg =
     (let lg1 = lg @ [Time ''lh:runner:auditing''] in
      if settingsChanged arts sett
      then (Inl (new_Error ''Cannot change settings between gathering and auditing''),
            runWarnings, lg1)
      else
        (let sharedAuditContext = \<lparr>LighthouseRunWarnings = runWarnings, computedCache = []\<rparr> in
         case runAuditsLoop audits arts sett (sharedAuditContext, lg1) of
           (auditResults, shared, lg2) \<Rightarrow>
             (Inr auditResults, LighthouseRunWarnings shared,
              lg2 @ [TimeEnd ''lh:runner:auditing''])))"

section \<open>\<^verbatim>\<open>Runner._getTiming\<close>\<close>

text \<open>
  \<^verbatim>\<open>parseFloat(x.toFixed(2))\<close> on an exact number: \<^verbatim>\<open>toFixed\<close> takes the integer \<open>n\<close> with
  \<open>n / 100\<close> nearest to the magnitude of \<open>x\<close>, the larger one of two, and keeps the sign.
  Reading the decimal back is exact here; in the source it gives the nearest double.
\<close>

definition toFixed2 :: "rat \<Rightarrow> rat" where
  "toFixed2 x =
     (if x < 0 then - (of_int \<lfloor>(- x) * 100 + 1 / 2\<rfloor> / 100)
      else of_int \<lfloor>x * 100 + 1 / 2\<rfloor> / 100)"

text \<open>\<^verbatim>\<open>new Map(keyValues)\<close>: the pairs are set in order.\<close>

definition new_Map :: "('k \<times> 'a) list \<Rightarrow> ('k \<times> 'a) list" where
  "new_Map keyValues = fold (\<lambda>(k, v) m. set_prop k v m) keyValues []"

record timing =
  entries :: "timing_entry list"
  total :: rat

definition roundEntry :: "timing_entry \<Rightarrow> timing_entry" where
  "roundEntry entry =
     \<lparr>startTime = toFixed2 (startTime entry), name = name entry,
      duration = toFixed2 (duration entry), entryType = entryType entry\<rparr>"

text \<open>
  \<^verbatim>\<open>log.takeTimeEntries()\<close> reads the logger's state; what it returns is the second
  argument here.
\<close>

definition getTiming :: "artifacts \<Rightarrow> timing_entry list \<Rightarrow> timing" where
  "getTiming arts timingEntriesFromRunner =
     (let timingEntriesFromArtifacts =
            (case artifact_at arts ''Timing'' of Some (TimingArtifact es) \<Rightarrow> es | _ \<Rightarrow> []);
          timingEntriesKeyValues =
            map (\<lambda>entry. (startTime entry, entry))
                (timingEntriesFromArtifacts @ timingEntriesFromRunner);
          timingEntries = map roundEntry (Object_values (new_Map timingEntriesKeyValues));
          runnerEntry = List.find (\<lambda>e. name e = ''lh:runner:run'') timingEntries
      in \<lparr>entries = timingEntries,
          total = (case runnerEntry of
                     Some e \<Rightarrow> (if duration e \<noteq> 0 then duration e else 0)
                   | None \<Rightarrow> 0)\<rparr>)"

text \<open>
  The two steps of \<^verbatim>\<open>_getTiming\<close> by name: the entries that the artifacts bring
  (\<^verbatim>\<open>artifacts.Timing || []\<close>), and the values of the map keyed by start time.
\<close>

definition artifactTiming :: "artifacts \<Rightarrow> timing_entry list" where
  "artifactTiming arts =
     (case artifact_at arts ''Timing'' of Some (TimingArtifact es) \<Rightarrow> es | _ \<Rightarrow> [])"

definition dedupedByStartTime :: "timing_entry list \<Rightarrow> timing_entry list" where
  "dedupedByStartTime es = Object_values (new_Map (map (\<lambda>entry. (startTime entry, entry)) es))"

section \<open>\<^verbatim>\<open>Runner.run\<close>\<close>

text \<open>
  A path is the call of Node's \<^verbatim>\<open>path\<close> module that computes it:
  \<^verbatim>\<open>path.resolve(process.cwd(), p)\<close> or \<^verbatim>\<open>path.join(process.cwd(), 'latest-run')\<close>.
\<close>

datatype fs_path = path_resolve string string | path_join string string

definition getArtifactsPath :: "string \<Rightarrow> js_object \<Rightarrow> fs_path" where
  "getArtifactsPath cwd sett =
     (case map_of sett ''auditMode'' of
        Some (JStr auditMode) \<Rightarrow> path_resolve cwd auditMode
      | _ \<Rightarrow>
          (case map_of sett ''gatherMode'' of
             Some (JStr gatherMode) \<Rightarrow> path_resolve cwd gatherMode
           | _ \<Rightarrow> path_join cwd ''latest-run''))"

record config =
  config_settings :: js_object
  config_audits :: "auditDefn list option"
  config_passes :: "jsval option"
  config_categories :: "jsval option"
  config_groups :: "jsval option"

record runOpts =
  config :: config
  url :: "string option"

text \<open>The result record \<^verbatim>\<open>lhr\<close>, with the fields of the object literal of \<^verbatim>\<open>run\<close>.\<close>

record lhr_environment =
  networkUserAgent :: "artifact option"
  hostUserAgent :: "artifact option"
  benchmarkIndex :: "artifact option"

record lhr_i18n =
  rendererFormattedStrings :: jsval
  icuMessagePaths :: jsval

record lhr =
  lhr_userAgent :: "artifact option"
  lhr_environment :: lhr_environment
  lhr_lighthouseVersion :: string
  lhr_fetchTime :: "artifact option"
  lhr_requestedUrl :: string
  lhr_finalUrl :: string
  lhr_runWarnings :: "string list"
  lhr_runtimeError :: "runtime_error option"
  lhr_audits :: "(string \<times> audit_result) list"
  lhr_configSettings :: js_object
  lhr_categories :: jsval
  lhr_categoryGroups :: "jsval option"
  lhr_timing :: timing
  lhr_i18n :: lhr_i18n
  lhr_stackPacks :: jsval

record runner_result =
  result_lhr :: lhr
  result_artifacts :: artifacts
  result_report :: jsval

text \<open>
  What the run takes from outside. The working directory; the platform's URL parser
  (\<^verbatim>\<open>new URL(u).href\<close>, \<open>None\<close> where it throws); the collection driver
  (\<^verbatim>\<open>GatherRunner.run\<close> on the passes, the requested URL and the settings); the logger's
  time entries; the version of \<^verbatim>\<open>package.json\<close>; and the calls into other modules that
  the construction of the result makes, each of which returns or throws:
  \<^verbatim>\<open>ReportScoring.scoreAllCategories\<close>, \<^verbatim>\<open>i18n.getRendererFormattedStrings\<close>,
  \<^verbatim>\<open>stackPacks.getStackPacks\<close>, \<^verbatim>\<open>i18n.replaceIcuMessageInstanceIds\<close> (it returns the
  paths and changes the strings of the record it is given: the record as it leaves it
  is the first component here) and \<^verbatim>\<open>generateReport\<close>. \<^verbatim>\<open>i18n.getFormatted\<close> is the call
  of the outer \<^verbatim>\<open>catch\<close>.
\<close>

record env =
  cwd :: string
  URL_href :: "string \<Rightarrow> string option"
  GatherRunner_run :: "jsval \<Rightarrow> string \<Rightarrow> js_object \<Rightarrow> error_obj + artifacts"
  takeTimeEntries :: "timing_entry list"
  package_version :: string
  ReportScoring_scoreAllCategories ::
    "jsval \<Rightarrow> (string \<times> audit_result) list \<Rightarrow> error_obj + jsval"
  i18n_getRendererFormattedStrings :: "jsval option \<Rightarrow> error_obj + jsval"
  stackPacks_getStackPacks :: "artifact option \<Rightarrow> error_obj + jsval"
  i18n_replaceIcuMessageInstanceIds :: "lhr \<Rightarrow> jsval option \<Rightarrow> error_obj + lhr \<times> jsval"
  generateReport :: "lhr \<Rightarrow> jsval option \<Rightarrow> error_obj + jsval"
  i18n_getFormatted :: "string option \<Rightarrow> jsval option \<Rightarrow> string option"

text \<open>What the run changes: the saved artifacts by path, and the log.\<close>

record world =
  disk :: "fs_path \<Rightarrow> artifacts option"
  timeLog :: "log_event list"

text \<open>
  Modelled from the spec: \<^verbatim>\<open>assetSaver.loadArtifacts\<close> and \<^verbatim>\<open>assetSaver.saveArtifacts\<close>
  of \<^verbatim>\<open>lib/asset-saver.js\<close>, which is not among the sources: \<open>save(ArtifactSet, path)\<close>
  and \<open>load(path) -> ArtifactSet\<close>. Loading where nothing was saved fails.
\<close>

definition loadArtifacts :: "world \<Rightarrow> fs_path \<Rightarrow> error_obj + artifacts" where
  "loadArtifacts w p =
     (case disk w p of
        Some arts \<Rightarrow> Inr arts
      | None \<Rightarrow> Inl (new_Error ''No saved artifacts found''))"

definition saveArtifacts :: "artifacts \<Rightarrow> fs_path \<Rightarrow> world \<Rightarrow> world" where
  "saveArtifacts arts p w = w\<lparr>disk := (disk w)(p \<mapsto> arts)\<rparr>"

text \<open>
  Modelled from the spec: \<^verbatim>\<open>URL.equalWithExcludedFragments\<close> of \<^verbatim>\<open>lib/url-shim.js\<close>,
  which is not among the sources: the two URLs denote the same resource, fragment
  identifiers ignored. Both are read by the URL parser, which the function takes as
  its first argument; they denote the same resource when both parse and their
  canonical forms agree up to the fragment. In a canonical form the first \<^verbatim>\<open>#\<close> starts
  the fragment.
\<close>

definition withoutFragment :: "string \<Rightarrow> string" where
  "withoutFragment u = takeWhile (\<lambda>c. c \<noteq> CHR ''#'') u"

definition equalWithExcludedFragments ::
  "(string \<Rightarrow> string option) \<Rightarrow> string \<Rightarrow> string \<Rightarrow> bool" where
  "equalWithExcludedFragments href url1 url2 =
     (case href url1 of
        None \<Rightarrow> False
      | Some urla \<Rightarrow>
          (case href url2 of
             None \<Rightarrow> False
           | Some urlb \<Rightarrow> withoutFragment urla = withoutFragment urlb))"

text \<open>\<^verbatim>\<open>Runner._gatherArtifactsFromBrowser\<close>\<close>

definition gatherArtifactsFromBrowser :: "env \<Rightarrow> string \<Rightarrow> runOpts \<Rightarrow> error_obj + artifacts" where
  "gatherArtifactsFromBrowser e requested opts =
     (case config_passes (config opts) of
        Some passes \<Rightarrow>
          if truthy passes
          then GatherRunner_run e passes requested (config_settings (config opts))
          else Inl (new_Error ''No browser artifacts are either provided or requested.'')
      | None \<Rightarrow> Inl (new_Error ''No browser artifacts are either provided or requested.''))"

text \<open>\<^verbatim>\<open>runOpts.url && !URL.equalWithExcludedFragments(runOpts.url, requestedUrl)\<close>\<close>

definition differentUrl :: "env \<Rightarrow> string option \<Rightarrow> string \<Rightarrow> bool" where
  "differentUrl e supplied requested =
     (case supplied of
        Some u \<Rightarrow> u \<noteq> [] \<and> \<not> equalWithExcludedFragments (URL_href e) u requested
      | None \<Rightarrow> False)"

text \<open>
  The gather phase of \<^verbatim>\<open>run\<close>: the artifacts and the requested URL, loaded from disk
  or gathered from the browser, or the error thrown on the way.
\<close>

definition gatherPhase :: "env \<Rightarrow> runOpts \<Rightarrow> world \<Rightarrow> (error_obj + artifacts \<times> string) \<times> world" where
  "gatherPhase e opts w =
     (let sett = config_settings (config opts) in
      if truthy_prop (map_of sett ''auditMode'') \<and> \<not> truthy_prop (map_of sett ''gatherMode'')
      then
        (case loadArtifacts w (getArtifactsPath (cwd e) sett) of
           Inl err \<Rightarrow> (Inl err, w)
         | Inr arts \<Rightarrow>
             (case artifact_at arts ''URL'' of
                Some (URLArtifact u) \<Rightarrow>
                  (case requestedUrl u of
                     None \<Rightarrow> (Inl (new_Error ''Cannot run audit mode on empty URL''), w)
                   | Some requested \<Rightarrow>
                       if requested = []
                       then (Inl (new_Error ''Cannot run audit mode on empty URL''), w)
                       else if differentUrl e (url opts) requested
                       then (Inl (new_Error ''Cannot run audit mode on different URL''), w)
                       else (Inr (arts, requested), w))
              | _ \<Rightarrow> (Inl (TypeError_reading ''requestedUrl'' ''undefined''), w)))
      else
        (case url opts of
           None \<Rightarrow>
             (Inl (new_Error (''You must provide a url to the runner. '' @ [CHR 0x27] @
                              ''undefined'' @ [CHR 0x27] @ '' provided.'')), w)
         | Some u \<Rightarrow>
             if u = []
             then (Inl (new_Error (''You must provide a url to the runner. '' @ [CHR 0x27] @
                                   u @ [CHR 0x27] @ '' provided.'')), w)
             else
               (case URL_href e u of
                  None \<Rightarrow>
                    (Inl (new_Error
                       ''The url provided should have a proper protocol and hostname.''), w)
                | Some requested \<Rightarrow>
                    (case gatherArtifactsFromBrowser e requested opts of
                       Inl err \<Rightarrow> (Inl err, w)
                     | Inr arts \<Rightarrow>
                         (Inr (arts, requested),
                          if truthy_prop (map_of sett ''gatherMode'')
                          then saveArtifacts arts (getArtifactsPath (cwd e) sett) w
                          else w)))))"

text \<open>
  The pieces of the construction of the result, lines 102 to 160 of the source.
  The warnings that the artifacts bring; the results by id; the scored categories
  (\<^verbatim>\<open>{}\<close> when the configuration has none).
\<close>

definition artifactWarnings :: "artifacts \<Rightarrow> string list" where
  "artifactWarnings arts =
     (case artifact_at arts ''LighthouseRunWarnings'' of
        Some (WarningsArtifact ws) \<Rightarrow> ws
      | _ \<Rightarrow> [])"

definition resultsById :: "audit_result list \<Rightarrow> (string \<times> audit_result) list" where
  "resultsById auditResults = fold (\<lambda>r obj. set_prop (ar_id r) r obj) auditResults []"

definition scoreCategories ::
  "env \<Rightarrow> runOpts \<Rightarrow> (string \<times> audit_result) list \<Rightarrow> error_obj + jsval" where
  "scoreCategories e opts byId =
     (case config_categories (config opts) of
        Some cats \<Rightarrow>
          if truthy cats then ReportScoring_scoreAllCategories e cats byId else Inr (JObj [])
      | None \<Rightarrow> Inr (JObj []))"

text \<open>
  The object literal \<^verbatim>\<open>lhr\<close>, its properties evaluated in the order they are written:
  reading \<^verbatim>\<open>artifacts.URL.finalUrl\<close> throws when there is no \<^verbatim>\<open>URL\<close> artifact, and the
  calls for the renderer's strings and the stack packs may throw.
\<close>

definition buildLhr ::
  "env \<Rightarrow> runOpts \<Rightarrow> artifacts \<Rightarrow> string \<Rightarrow> string list \<Rightarrow> (string \<times> audit_result) list
     \<Rightarrow> jsval \<Rightarrow> error_obj + lhr" where
  "buildLhr e opts arts requested lighthouseRunWarnings byId categories =
     (let sett = config_settings (config opts) in
      (case artifact_at arts ''URL'' of
         Some (URLArtifact u) \<Rightarrow>
           (case i18n_getRendererFormattedStrings e (map_of sett ''locale'') of
              Inl err \<Rightarrow> Inl err
            | Inr strings \<Rightarrow>
                (case stackPacks_getStackPacks e (artifact_at arts ''Stacks'') of
                   Inl err \<Rightarrow> Inl err
                 | Inr packs \<Rightarrow>
                     Inr \<lparr>lhr_userAgent = artifact_at arts ''HostUserAgent'',
                          lhr_environment =
                            \<lparr>networkUserAgent = artifact_at arts ''NetworkUserAgent'',
                             hostUserAgent = artifact_at arts ''HostUserAgent'',
                             benchmarkIndex = artifact_at arts ''BenchmarkIndex''\<rparr>,
                          lhr_lighthouseVersion = package_version e,
                          lhr_fetchTime = artifact_at arts ''fetchTime'',
                          lhr_requestedUrl = requested,
                          lhr_finalUrl = finalUrl u,
                          lhr_runWarnings = lighthouseRunWarnings,
                          lhr_runtimeError = getArtifactRuntimeError arts,
                          lhr_audits = byId,
                          lhr_configSettings = sett,
                          lhr_categories = categories,
                          lhr_categoryGroups =
                            (case config_groups (config opts) of
                               Some g \<Rightarrow> if truthy g then Some g else None
                             | None \<Rightarrow> None),
                          lhr_timing = getTiming arts (takeTimeEntries e),
                          lhr_i18n = \<lparr>rendererFormattedStrings = strings,
                                      icuMessagePaths = JObj []\<rparr>,
                          lhr_stackPacks = packs\<rparr>))
       | _ \<Rightarrow> Inl (TypeError_reading ''finalUrl'' ''undefined'')))"

text \<open>
  From the literal to the return: the message references are replaced and their paths
  stored in the record, and the report is generated from it.
\<close>

definition finishResult :: "env \<Rightarrow> runOpts \<Rightarrow> artifacts \<Rightarrow> lhr \<Rightarrow> error_obj + runner_result" where
  "finishResult e opts arts lhr0 =
     (let sett = config_settings (config opts) in
      (case i18n_replaceIcuMessageInstanceIds e lhr0 (map_of sett ''locale'') of
         Inl err \<Rightarrow> Inl err
       | Inr (lhr1, paths) \<Rightarrow>
           (let lhr2 = lhr1\<lparr>lhr_i18n := (lhr_i18n lhr1)\<lparr>icuMessagePaths := paths\<rparr>\<rparr> in
            (case generateReport e lhr2 (map_of sett ''output'') of
               Inl err \<Rightarrow> Inl err
             | Inr report \<Rightarrow>
                 Inr \<lparr>result_lhr = lhr2, result_artifacts = arts, result_report = report\<rparr>))))"

text \<open>The audit phase and the construction of the result, from line 95 of the source on.\<close>

definition auditPhase ::
  "env \<Rightarrow> runOpts \<Rightarrow> artifacts \<Rightarrow> string \<Rightarrow> world \<Rightarrow> (error_obj + runner_result option) \<times> world" where
  "auditPhase e opts arts requested w =
     (let sett = config_settings (config opts) in
      case config_audits (config opts) of
        None \<Rightarrow> (Inl (new_Error ''No audits to evaluate.''), w)
      | Some audits \<Rightarrow>
          (case runAudits sett audits arts [] (timeLog w) of
             (Inl err, runWarnings, lg) \<Rightarrow> (Inl err, w\<lparr>timeLog := lg\<rparr>)
           | (Inr auditResults, runWarnings, lg) \<Rightarrow>
               (let lg1 = lg @ [Time ''lh:runner:generate''];
                    lighthouseRunWarnings = runWarnings @ artifactWarnings arts;
                    byId = resultsById auditResults
                in case scoreCategories e opts byId of
                     Inl err \<Rightarrow> (Inl err, w\<lparr>timeLog := lg1\<rparr>)
                   | Inr categories \<Rightarrow>
                       (let w' = w\<lparr>timeLog := lg1 @ [TimeEnd ''lh:runner:generate'',
                                                       TimeEnd ''lh:runner:run'']\<rparr>
                        in case buildLhr e opts arts requested lighthouseRunWarnings byId
                                  categories of
                             Inl err \<Rightarrow> (Inl err, w')
                           | Inr lhr0 \<Rightarrow>
                               (case finishResult e opts arts lhr0 of
                                  Inl err \<Rightarrow> (Inl err, w')
                                | Inr res \<Rightarrow> (Inr (Some res), w'))))))"

text \<open>
  The body of the \<^verbatim>\<open>try\<close> block of \<^verbatim>\<open>Runner.run\<close>: \<open>Inr None\<close> is the return of
  \<^verbatim>\<open>undefined\<close>, \<open>Inl err\<close> an error thrown.
\<close>

definition runBody :: "env \<Rightarrow> runOpts \<Rightarrow> world \<Rightarrow> (error_obj + runner_result option) \<times> world" where
  "runBody e opts w =
     (let sett = config_settings (config opts);
          w1 = w\<lparr>timeLog := timeLog w @ [Time ''lh:runner:run'']\<rparr>
      in case gatherPhase e opts w1 of
           (Inl err, w2) \<Rightarrow> (Inl err, w2)
         | (Inr (arts, requested), w2) \<Rightarrow>
             if truthy_prop (map_of sett ''gatherMode'') \<and> \<not> truthy_prop (map_of sett ''auditMode'')
             then (Inr None, w2)
             else auditPhase e opts arts requested w2)"

text \<open>
  The \<^verbatim>\<open>catch\<close> block: the error's friendly message is replaced by its localised form,
  and the error is thrown again.
\<close>

definition rethrown :: "env \<Rightarrow> js_object \<Rightarrow> error_obj \<Rightarrow> error_obj" where
  "rethrown e sett err =
     err\<lparr>friendlyMessage := i18n_getFormatted e (friendlyMessage err) (map_of sett ''locale'')\<rparr>"

text \<open>\<^verbatim>\<open>Runner.run\<close>\<close>

definition run :: "env \<Rightarrow> runOpts \<Rightarrow> world \<Rightarrow> (error_obj + runner_result option) \<times> world" where
  "run e opts w =
     (case runBody e opts w of
        (Inl err, w') \<Rightarrow> (Inl (rethrown e (config_settings (config opts)) err), w')
      | (Inr res, w') \<Rightarrow> (Inr res, w'))"

text \<open>An audit has executed when the log has its \<^verbatim>\<open>lh:audit:\<close> status.\<close>

definition isAuditEvent :: "log_event \<Rightarrow> bool" where
  "isAuditEvent ev =
     (case ev of Time i \<Rightarrow> take 9 i = ''lh:audit:'' | TimeEnd i \<Rightarrow> take 9 i = ''lh:audit:'')"

definition auditsExecuted :: "log_event list \<Rightarrow> log_event list" where
  "auditsExecuted lg = filter isAuditEvent lg"






section \<open>Concrete artifact sets, audits and runs\<close>

definition pageLoadHung :: lh_error where
  "pageLoadHung =
     \<lparr>message = ''PAGE_HUNG'', friendlyMessage = Some ''The page stopped responding'',
      code = ''PAGE_HUNG'', lhrRuntimeError = True\<rparr>"

definition noFcp :: lh_error where
  "noFcp =
     \<lparr>message = ''NO_FCP'', friendlyMessage = None, code = ''NO_FCP'',
      lhrRuntimeError = True\<rparr>"

definition noSpeedline :: lh_error where
  "noSpeedline =
     \<lparr>message = ''NO_SPEEDLINE_FRAMES'', friendlyMessage = Some [],
      code = ''NO_SPEEDLINE_FRAMES'', lhrRuntimeError = False\<rparr>"

definition artifacts_hung :: artifacts where
  "artifacts_hung =
     [(''HostUserAgent'', Data (JStr ''Chrome'')),
      (''ViewportDimensions'', LHErrorArtifact noFcp),
      (''PageLoadError'', LHErrorArtifact pageLoadHung)]"

definition artifacts_unflagged :: artifacts where
  "artifacts_unflagged =
     [(''PageLoadError'', LHErrorArtifact noSpeedline),
      (''ViewportDimensions'', LHErrorArtifact noFcp)]"

text \<open>An audit that leaves the shared members as it found them returns this.\<close>

definition sharedOf :: "audit_context \<Rightarrow> shared_state" where
  "sharedOf ctx =
     \<lparr>LighthouseRunWarnings = LighthouseRunWarnings ctx, computedCache = computedCache ctx\<rparr>"

definition viewportAudit :: auditDefn where
  "viewportAudit =
     \<lparr>implementation =
        \<lparr>meta = \<lparr>meta_id = ''viewport'', title = ''Has a viewport meta tag'',
                  requiredArtifacts = [''ViewportDimensions'']\<rparr>,
         defaultOptions = [],
         audit = (\<lambda>arts ctx.
            (Inr \<lparr>score = Some (of_nat (length arts)), details = JNull\<rparr>, sharedOf ctx))\<rparr>,
      defn_options = []\<rparr>"

definition metricsAudit :: auditDefn where
  "metricsAudit =
     \<lparr>implementation =
        \<lparr>meta = \<lparr>meta_id = ''metrics'', title = ''Metrics'',
                  requiredArtifacts = [''traces'']\<rparr>,
         defaultOptions = [],
         audit = (\<lambda>arts ctx. (Inr \<lparr>score = Some 1, details = JNull\<rparr>, sharedOf ctx))\<rparr>,
      defn_options = []\<rparr>"

definition fontSizeAudit :: auditDefn where
  "fontSizeAudit =
     \<lparr>implementation =
        \<lparr>meta = \<lparr>meta_id = ''font-size'', title = ''Uses legible font sizes'',
                  requiredArtifacts = [''ViewportDimensions'', ''FontSize'', ''MetaElements'']\<rparr>,
         defaultOptions = [],
         audit = (\<lambda>arts ctx. (Inr \<lparr>score = Some 1, details = JNull\<rparr>, sharedOf ctx))\<rparr>,
      defn_options = []\<rparr>"

definition isOnHttpsAudit :: auditDefn where
  "isOnHttpsAudit =
     \<lparr>implementation =
        \<lparr>meta = \<lparr>meta_id = ''is-on-https'', title = ''Uses HTTPS'',
                  requiredArtifacts = [''URL'']\<rparr>,
         defaultOptions = [],
         audit = (\<lambda>arts ctx.
            (Inl \<lparr>message = ''insecure'', friendlyMessage = Some ''The page is not secure''\<rparr>,
             \<lparr>LighthouseRunWarnings = LighthouseRunWarnings ctx @ [''Insecure requests found''],
              computedCache = set_prop ''NetworkRecords'' (JBool True) (computedCache ctx)\<rparr>))\<rparr>,
      defn_options = []\<rparr>"

definition artifacts_gathered :: artifacts where
  "artifacts_gathered =
     [(''URL'', URLArtifact \<lparr>requestedUrl = Some ''https://example.com/'',
                             finalUrl = ''https://example.com/''\<rparr>),
      (''ViewportDimensions'', Data (JObj [(''innerWidth'', JNum 412)])),
      (''traces'', Data (JObj [(''offlinePass'', JObj [])])),
      (''FontSize'', LHErrorArtifact noFcp),
      (''MetaElements'', ErrorArtifact \<lparr>message = ''Protocol error'', friendlyMessage = None\<rparr>)]"


definition artifacts_timed :: artifacts where
  "artifacts_timed =
     [(''Timing'', TimingArtifact
        [\<lparr>startTime = 1 / 8, name = ''lh:init:connect'', duration = 2469 / 2, entryType = ''measure''\<rparr>,
         \<lparr>startTime = 5 / 16, name = ''lh:gather:loadPage'', duration = 3, entryType = ''measure''\<rparr>])]"

definition runnerEntries :: "timing_entry list" where
  "runnerEntries =
     [\<lparr>startTime = 1 / 8, name = ''lh:init:connect'', duration = 2500, entryType = ''measure''\<rparr>,
      \<lparr>startTime = 0, name = ''lh:runner:run'', duration = 117 / 16, entryType = ''measure''\<rparr>]"













section \<open>The runtime error extractor\<close>

lemma scan_values: "scanErrorArtifacts (map Some vs) = firstRuntimeError vs"
  by (induction vs rule: runtimeErrorsOf.induct) (simp_all add: firstRuntimeError_def)

lemma isRuntimeError_flagged:
  "isRuntimeError x \<Longrightarrow> \<exists>e. x = Some (LHErrorArtifact e) \<and> lhrRuntimeError e"
  by (cases x rule: isRuntimeError.cases) simp_all

lemma scan_skip:
  "\<not> isRuntimeError x \<Longrightarrow> scanErrorArtifacts (x # rest) = scanErrorArtifacts rest"
  by (cases x rule: isRuntimeError.cases) simp_all

lemma scan_None_iff:
  "scanErrorArtifacts xs = None \<longleftrightarrow> (\<forall>x \<in> set xs. \<not> isRuntimeError x)"
proof (induction xs)
  case Nil
  show ?case by simp
next
  case (Cons x xs)
  show ?case
  proof (cases "isRuntimeError x")
    case True
    then obtain e where "x = Some (LHErrorArtifact e)" "lhrRuntimeError e"
      using isRuntimeError_flagged by blast
    then show ?thesis by simp
  next
    case False
    then show ?thesis
      using Cons.IH by (simp add: scan_skip del: scanErrorArtifacts.simps)
  qed
qed

lemma scan_find:
  "scanErrorArtifacts xs = Some r \<Longrightarrow>
   \<exists>e. List.find isRuntimeError xs = Some (Some (LHErrorArtifact e)) \<and> r = toRuntimeError e"
proof (induction xs)
  case Nil
  then show ?case by simp
next
  case (Cons x xs)
  show ?case
  proof (cases "isRuntimeError x")
    case True
    then obtain e where "x = Some (LHErrorArtifact e)" "lhrRuntimeError e"
      using isRuntimeError_flagged by blast
    then show ?thesis using Cons.prems by auto
  next
    case False
    then show ?thesis
      using Cons by (simp add: scan_skip del: scanErrorArtifacts.simps)
  qed
qed

lemma runtimeErrorsOf_Nil_iff:
  "runtimeErrorsOf vs = [] \<longleftrightarrow> (\<forall>v \<in> set vs. \<not> isRuntimeError (Some v))"
  by (induction vs rule: runtimeErrorsOf.induct) simp_all

lemma artifact_at_in_values:
  "artifact_at arts k = Some v \<Longrightarrow> v \<in> set (Object_values arts)"
  by (force simp: artifact_at_def Object_values_def dest: map_of_SomeD)

text \<open>
  C4, as the code has it. A flagged error marker in the \<^verbatim>\<open>PageLoadError\<close> slot is
  returned as its \<open>{code, message}\<close> pair, whatever else the set holds. Whenever that
  slot holds no flagged marker (it is absent, or it holds any other value, an error
  marker without the flag included) the result is the first flagged marker among all
  values of the set, in the order of \<^verbatim>\<open>Object.values\<close>. The result is none exactly
  when no value of the set is a flagged marker.
\<close>

theorem getArtifactRuntimeError_scan_order:
  "(\<forall>e. artifact_at arts ''PageLoadError'' = Some (LHErrorArtifact e) \<and> lhrRuntimeError e
        \<longrightarrow> getArtifactRuntimeError arts = Some (toRuntimeError e))
   \<and> (\<not> isRuntimeError (artifact_at arts ''PageLoadError'')
        \<longrightarrow> getArtifactRuntimeError arts = firstRuntimeError (Object_values arts))
   \<and> (getArtifactRuntimeError arts = None \<longleftrightarrow> runtimeErrorsOf (Object_values arts) = [])"
proof (intro conjI allI impI)
  fix e
  assume "artifact_at arts ''PageLoadError'' = Some (LHErrorArtifact e) \<and> lhrRuntimeError e"
  then show "getArtifactRuntimeError arts = Some (toRuntimeError e)"
    by (simp add: getArtifactRuntimeError_def possibleErrorArtifacts_def)
next
  assume "\<not> isRuntimeError (artifact_at arts ''PageLoadError'')"
  then show "getArtifactRuntimeError arts = firstRuntimeError (Object_values arts)"
    by (simp add: getArtifactRuntimeError_def possibleErrorArtifacts_def scan_skip scan_values
        del: scanErrorArtifacts.simps)
next
  have "isRuntimeError (artifact_at arts ''PageLoadError'') \<Longrightarrow>
        \<exists>v \<in> set (Object_values arts). isRuntimeError (Some v)"
    by (cases "artifact_at arts ''PageLoadError''") (auto dest: artifact_at_in_values)
  then show "getArtifactRuntimeError arts = None \<longleftrightarrow> runtimeErrorsOf (Object_values arts) = []"
    unfolding getArtifactRuntimeError_def possibleErrorArtifacts_def scan_None_iff
      runtimeErrorsOf_Nil_iff
    by auto
qed

theorem getArtifactRuntimeError_scan_order_witness:
  "artifact_at artifacts_hung ''PageLoadError'' = Some (LHErrorArtifact pageLoadHung)
   \<and> lhrRuntimeError pageLoadHung
   \<and> getArtifactRuntimeError artifacts_hung =
       Some \<lparr>rt_code = ''PAGE_HUNG'', rt_message = ''The page stopped responding''\<rparr>
   \<and> \<not> isRuntimeError (artifact_at artifacts_unflagged ''PageLoadError'')
   \<and> getArtifactRuntimeError artifacts_unflagged =
       Some \<lparr>rt_code = ''NO_FCP'', rt_message = ''NO_FCP''\<rparr>
   \<and> getArtifactRuntimeError [(''HostUserAgent'', Data (JStr ''Chrome''))] = None"
  using getArtifactRuntimeError_scan_order [of artifacts_hung]
    getArtifactRuntimeError_scan_order [of artifacts_unflagged]
    getArtifactRuntimeError_scan_order [of "[(''HostUserAgent'', Data (JStr ''Chrome''))]"]
  by (simp add: artifact_at_def Object_values_def firstRuntimeError_def toRuntimeError_def
      friendly_or_message_def artifacts_hung_def artifacts_unflagged_def pageLoadHung_def
      noFcp_def noSpeedline_def)

text \<open>
  C4, as the claim words it, fails: here the \<^verbatim>\<open>PageLoadError\<close> slot is present (it holds
  an error marker without the flag), and the code still goes on to the other values
  and returns the flagged marker of \<^verbatim>\<open>ViewportDimensions\<close>; scanning the other values
  only when the slot is absent would return none.
\<close>

theorem getArtifactRuntimeError_falls_back_when_present:
  "artifact_at artifacts_unflagged ''PageLoadError'' = Some (LHErrorArtifact noSpeedline)
   \<and> getArtifactRuntimeError artifacts_unflagged =
       Some \<lparr>rt_code = ''NO_FCP'', rt_message = ''NO_FCP''\<rparr>
   \<and> getArtifactRuntimeError_as_specified artifacts_unflagged = None
   \<and> getArtifactRuntimeError artifacts_unflagged
       \<noteq> getArtifactRuntimeError_as_specified artifacts_unflagged"
  by (simp add: artifact_at_def getArtifactRuntimeError_def
      getArtifactRuntimeError_as_specified_def possibleErrorArtifacts_def Object_values_def
      toRuntimeError_def friendly_or_message_def artifacts_unflagged_def noFcp_def
      noSpeedline_def)

text \<open>
  C10. Whenever the extractor returns a pair, the pair is made from the matched
  marker, the first flagged \<^verbatim>\<open>LHError\<close> of the scan: its code, and as message its
  friendly message when it has one, its raw message otherwise. A friendly message is
  there when the property is defined and not the empty string, which is how
  \<^verbatim>\<open>||\<close> decides it.
\<close>

theorem getArtifactRuntimeError_message:
  assumes "getArtifactRuntimeError arts = Some r"
  shows "\<exists>e. List.find isRuntimeError (possibleErrorArtifacts arts) = Some (Some (LHErrorArtifact e))
           \<and> rt_code r = code e
           \<and> (\<forall>f. friendlyMessage e = Some f \<and> f \<noteq> [] \<longrightarrow> rt_message r = f)
           \<and> (friendlyMessage e = None \<or> friendlyMessage e = Some []
                \<longrightarrow> rt_message r = message e)"
proof -
  from assms obtain e where
    found: "List.find isRuntimeError (possibleErrorArtifacts arts) = Some (Some (LHErrorArtifact e))"
    and r: "r = toRuntimeError e"
    unfolding getArtifactRuntimeError_def using scan_find by blast
  have "rt_code r = code e"
    by (simp add: r toRuntimeError_def)
  moreover have "\<forall>f. friendlyMessage e = Some f \<and> f \<noteq> [] \<longrightarrow> rt_message r = f"
    by (simp add: r toRuntimeError_def friendly_or_message_def)
  moreover have "friendlyMessage e = None \<or> friendlyMessage e = Some [] \<longrightarrow> rt_message r = message e"
    by (auto simp: r toRuntimeError_def friendly_or_message_def)
  ultimately show ?thesis using found by blast
qed

theorem getArtifactRuntimeError_message_witness:
  "getArtifactRuntimeError artifacts_hung =
     Some \<lparr>rt_code = ''PAGE_HUNG'', rt_message = ''The page stopped responding''\<rparr>
   \<and> friendlyMessage pageLoadHung = Some ''The page stopped responding''
   \<and> getArtifactRuntimeError artifacts_unflagged =
       Some \<lparr>rt_code = ''NO_FCP'', rt_message = ''NO_FCP''\<rparr>
   \<and> friendlyMessage noFcp = None \<and> message noFcp = ''NO_FCP''"
  using getArtifactRuntimeError_message
      [of artifacts_hung "\<lparr>rt_code = ''PAGE_HUNG'', rt_message = ''The page stopped responding''\<rparr>"]
    getArtifactRuntimeError_message
      [of artifacts_unflagged "\<lparr>rt_code = ''NO_FCP'', rt_message = ''NO_FCP''\<rparr>"]
  by (simp add: artifact_at_def getArtifactRuntimeError_def possibleErrorArtifacts_def
      Object_values_def toRuntimeError_def friendly_or_message_def artifacts_hung_def
      artifacts_unflagged_def pageLoadHung_def noFcp_def noSpeedline_def)

section \<open>The audit execution engine\<close>

subsection \<open>Objects and the checks on required artifacts\<close>

lemma map_of_set_prop: "map_of (set_prop k v ps) = (map_of ps)(k \<mapsto> v)"
  by (induction ps) (auto simp: fun_eq_iff)

lemma keys_set_prop:
  "map fst (set_prop k v ps) = (if k \<in> set (map fst ps) then map fst ps else map fst ps @ [k])"
  by (induction ps) auto

lemma key_set_set_prop: "set (map fst (set_prop k v ps)) = insert k (set (map fst ps))"
  by (auto simp: keys_set_prop)

lemma distinct_set_prop: "distinct (map fst ps) \<Longrightarrow> distinct (map fst (set_prop k v ps))"
  by (simp add: keys_set_prop)

lemma noTrace_ok_iff:
  "noTrace n arts = Inr False \<longleftrightarrow> (n = ''traces'' \<longrightarrow> hasDefaultPass arts)"
  by (auto simp: noTrace_def hasDefaultPass_def split: option.splits artifact.splits jsval.splits)

lemma noTrace_other [simp]: "n \<noteq> ''traces'' \<Longrightarrow> noTrace n arts = Inr False"
  by (simp add: noTrace_def)

lemma check_Cons_None_iff:
  "checkRequiredArtifacts (n # rest) arts = None \<longleftrightarrow>
     \<not> missingArtifact arts n \<and> artifactError (artifact_at arts n) = None
     \<and> checkRequiredArtifacts rest arts = None"
proof (cases "noTrace n arts")
  case (Inl err)
  then have "noTrace n arts \<noteq> Inr False" by simp
  then have "missingArtifact arts n"
    by (auto simp: noTrace_ok_iff missingArtifact_def)
  then show ?thesis using Inl by simp
next
  case (Inr b)
  have "b = False \<longleftrightarrow> (n = ''traces'' \<longrightarrow> hasDefaultPass arts)"
    using Inr noTrace_ok_iff [of n arts] by simp
  then show ?thesis using Inr
    by (auto simp: missingArtifact_def split: option.splits)
qed

lemma check_None_iff:
  "checkRequiredArtifacts names arts = None \<longleftrightarrow> requiredArtifactsOk arts names"
proof (induction names)
  case Nil
  show ?case by (simp add: requiredArtifactsOk_def)
next
  case (Cons n rest)
  show ?case
    using Cons.IH
    by (simp only: check_Cons_None_iff) (auto simp: requiredArtifactsOk_def)
qed

lemma check_append:
  "checkRequiredArtifacts (pre @ rest) arts =
     (case checkRequiredArtifacts pre arts of
        Some err \<Rightarrow> Some err
      | None \<Rightarrow> checkRequiredArtifacts rest arts)"
proof (induction pre)
  case Nil show ?case by simp
next
  case (Cons n pre)
  show ?case using Cons.IH
    by (simp split: sum.splits option.splits)
qed

lemma check_first_error:
  assumes "requiredArtifactsOk arts pre" "x \<noteq> ''traces''"
    "artifactError (artifact_at arts x) = Some msg"
  shows "checkRequiredArtifacts (pre @ x # post) arts =
     Some (new_Error (''Required '' @ x @ '' gatherer encountered an error: '' @ msg))"
proof -
  obtain v where "artifact_at arts x = Some v"
    using assms(3) by (cases "artifact_at arts x") auto
  then show ?thesis
    using assms by (simp add: check_append check_None_iff [symmetric])
qed

lemma noTrace_cong:
  "artifact_at arts n = artifact_at arts' n \<Longrightarrow> noTrace n arts = noTrace n arts'"
  by (auto simp: noTrace_def)

lemma check_cong:
  "\<forall>n \<in> set names. artifact_at arts n = artifact_at arts' n \<Longrightarrow>
   checkRequiredArtifacts names arts = checkRequiredArtifacts names arts'"
proof (induction names)
  case Nil show ?case by simp
next
  case (Cons n rest)
  then have eq: "artifact_at arts n = artifact_at arts' n"
    and rest: "checkRequiredArtifacts rest arts = checkRequiredArtifacts rest arts'"
    by simp_all
  have tr: "noTrace n arts = noTrace n arts'"
    using eq by (rule noTrace_cong)
  show ?case
    unfolding checkRequiredArtifacts.simps eq rest tr ..
qed

lemma pick_cong:
  "\<forall>n \<in> set names. artifact_at arts n = artifact_at arts' n \<Longrightarrow>
   pickRequiredArtifacts names arts = pickRequiredArtifacts names arts'"
  unfolding pickRequiredArtifacts_def
  by (rule fold_cong) auto

lemma auditOutcome_cong:
  assumes "\<forall>n \<in> set (requiredArtifacts (meta (implementation defn))).
      artifact_at arts n = artifact_at arts' n"
  shows "auditOutcome defn arts sett sh = auditOutcome defn arts' sett sh"
  unfolding auditOutcome_def Let_def check_cong [OF assms] pick_cong [OF assms] ..

lemma runAudit_cong:
  assumes "\<forall>n \<in> set (requiredArtifacts (meta (implementation defn))).
      artifact_at arts n = artifact_at arts' n"
  shows "runAudit defn arts sett st = runAudit defn arts' sett st"
  unfolding runAudit_def auditOutcome_cong [OF assms] ..

lemma pick_fold_map_of:
  "map_of (fold (\<lambda>artifactName picked.
             case artifact_at arts artifactName of
               Some v \<Rightarrow> set_prop artifactName v picked
             | None \<Rightarrow> picked) names acc) k =
   (if k \<in> set names \<and> artifact_at arts k \<noteq> None then artifact_at arts k else map_of acc k)"
  by (induction names arbitrary: acc) (auto simp: map_of_set_prop split: option.splits)

lemma pick_fold_keys:
  "set (map fst (fold (\<lambda>artifactName picked.
             case artifact_at arts artifactName of
               Some v \<Rightarrow> set_prop artifactName v picked
             | None \<Rightarrow> picked) names acc)) =
   set (map fst acc) \<union> {n \<in> set names. artifact_at arts n \<noteq> None}"
  by (induction names arbitrary: acc)
     (auto simp: key_set_set_prop simp del: set_map split: option.splits)

lemma pick_fold_distinct:
  "distinct (map fst acc) \<Longrightarrow> distinct (map fst (fold (\<lambda>artifactName picked.
             case artifact_at arts artifactName of
               Some v \<Rightarrow> set_prop artifactName v picked
             | None \<Rightarrow> picked) names acc))"
  by (induction names arbitrary: acc) (auto simp: distinct_set_prop split: option.splits)

lemma runAudit_id: "ar_id (fst (runAudit defn arts sett st)) = meta_id (meta (implementation defn))"
  by (simp add: runAudit_def auditOutcome_def Let_def split_def generateAuditResult_def
      generateErrorAuditResult_def split: option.splits sum.splits)

lemma loop_ids:
  "map ar_id (fst (runAuditsLoop audits arts sett st)) =
   map (\<lambda>defn. meta_id (meta (implementation defn))) audits"
proof (induction audits arbitrary: st)
  case Nil show ?case by simp
next
  case (Cons defn rest)
  show ?case using Cons.IH runAudit_id [of defn arts sett st]
    by (simp add: split_def)
qed

lemma loop_append:
  "runAuditsLoop (xs @ ys) arts sett st =
     (case runAuditsLoop xs arts sett st of
        (r1, st1) \<Rightarrow>
          (case runAuditsLoop ys arts sett st1 of (r2, st2) \<Rightarrow> (r1 @ r2, st2)))"
  by (induction xs arbitrary: st) (simp_all add: split_def)

lemma runAudit_log:
  "runAudit defn arts sett (sh, lg) =
     (case runAudit defn arts sett (sh, []) of (r, sh', l) \<Rightarrow> (r, sh', lg @ l))"
  by (simp add: runAudit_def Let_def)

lemma loop_log:
  "runAuditsLoop audits arts sett (sh, lg) =
     (case runAuditsLoop audits arts sett (sh, []) of (r, sh', l) \<Rightarrow> (r, sh', lg @ l))"
proof (induction audits arbitrary: sh lg)
  case Nil show ?case by simp
next
  case (Cons defn rest)
  obtain r sh1 l1 where a: "runAudit defn arts sett (sh, []) = (r, sh1, l1)"
    by (metis prod_cases3)
  then have b: "runAudit defn arts sett (sh, lg) = (r, sh1, lg @ l1)"
    using runAudit_log [of defn arts sett sh lg] by simp
  show ?case
    using Cons.IH [of sh1 "lg @ l1"] Cons.IH [of sh1 l1]
    by (simp add: a b split_def)
qed

lemma loop_length: "length (fst (runAuditsLoop audits arts sett st)) = length audits"
  using loop_ids [of audits arts sett st] by (metis length_map)

lemma runAudits_ok:
  "runAudits sett audits arts ws lg = (Inr results, ws', lg') \<Longrightarrow>
   results = fst (runAuditsLoop audits arts sett
       (\<lparr>LighthouseRunWarnings = ws, computedCache = []\<rparr>, lg @ [Time ''lh:runner:auditing'']))"
  by (auto simp: runAudits_def Let_def split_def split: if_splits)

lemma loop_insert_inert:
  assumes inert: "\<And>st. runAudit defn arts sett st = (r, fst st, snd st @ l)"
  shows "fst (runAuditsLoop (before @ defn # after) arts sett st) =
           take (length before) (fst (runAuditsLoop (before @ after) arts sett st)) @ r #
           drop (length before) (fst (runAuditsLoop (before @ after) arts sett st))
       \<and> fst (snd (runAuditsLoop (before @ defn # after) arts sett st)) =
           fst (snd (runAuditsLoop (before @ after) arts sett st))"
proof -
  obtain r1 sh1 l1 where b: "runAuditsLoop before arts sett st = (r1, sh1, l1)"
    by (metis prod_cases3)
  obtain r2 sh2 l2 where a: "runAuditsLoop after arts sett (sh1, []) = (r2, sh2, l2)"
    by (metis prod_cases3)
  have len: "length r1 = length before"
    using loop_length [of before arts sett st] b by simp
  have a1: "runAuditsLoop after arts sett (sh1, l1) = (r2, sh2, l1 @ l2)"
    using loop_log [of after arts sett sh1 l1] a by simp
  have a2: "runAuditsLoop after arts sett (sh1, l1 @ l) = (r2, sh2, (l1 @ l) @ l2)"
    using loop_log [of after arts sett sh1 "l1 @ l"] a by simp
  have d: "runAudit defn arts sett (sh1, l1) = (r, sh1, l1 @ l)"
    using inert [of "(sh1, l1)"] by simp
  have without: "runAuditsLoop (before @ after) arts sett st = (r1 @ r2, sh2, l1 @ l2)"
    by (simp add: loop_append b a1)
  have "with": "runAuditsLoop (before @ defn # after) arts sett st = (r1 @ r # r2, sh2, (l1 @ l) @ l2)"
    by (simp add: loop_append b d a2)
  show ?thesis
    unfolding without "with" using len by simp
qed

lemma runAudits_insert_inert:
  assumes inert: "\<And>st. runAudit defn arts sett st = (r, fst st, snd st @ l)"
    and same: "\<not> settingsChanged arts sett"
  shows "\<exists>others. fst (runAudits sett (before @ after) arts ws lg) = Inr others
       \<and> fst (runAudits sett (before @ defn # after) arts ws lg) =
           Inr (take (length before) others @ r # drop (length before) others)
       \<and> fst (snd (runAudits sett (before @ defn # after) arts ws lg)) =
           fst (snd (runAudits sett (before @ after) arts ws lg))"
  using loop_insert_inert [OF inert, of before after]
  by (simp add: runAudits_def Let_def split_def same)

lemma auditOutcome_check_failed:
  "checkRequiredArtifacts (requiredArtifacts (meta (implementation defn))) arts = Some err \<Longrightarrow>
   auditOutcome defn arts sett sh =
     (generateErrorAuditResult (implementation defn) (friendly_or_message err), sh)"
  by (simp add: auditOutcome_def)

lemma runAudit_check_failed:
  "checkRequiredArtifacts (requiredArtifacts (meta (implementation defn))) arts = Some err \<Longrightarrow>
   runAudit defn arts sett st =
     (generateErrorAuditResult (implementation defn) (friendly_or_message err), fst st,
      snd st @ [Time (''lh:audit:'' @ meta_id (meta (implementation defn))),
                TimeEnd (''lh:audit:'' @ meta_id (meta (implementation defn)))])"
  by (simp add: runAudit_def auditOutcome_check_failed Let_def)

lemma artifact_at_set_prop_other:
  "n \<noteq> x \<Longrightarrow> artifact_at (set_prop x v arts) n = artifact_at arts n"
  by (simp add: artifact_at_def map_of_set_prop)

text \<open>The definitions that a concrete run unfolds.\<close>

lemmas ex_defs = runAudits_def settingsChanged_def runAudit_def auditOutcome_def
      noTrace_def artifact_at_def pickRequiredArtifacts_def Object_assign_def
      generateAuditResult_def generateErrorAuditResult_def friendly_or_message_def new_Error_def
      viewportAudit_def isOnHttpsAudit_def fontSizeAudit_def metricsAudit_def
      artifacts_gathered_def sharedOf_def noFcp_def Let_def DEFAULT_PASS_def
      missingArtifact_def hasDefaultPass_def requiredArtifactsOk_def

subsection \<open>One result per configured audit, in order\<close>

text \<open>
  C1. Whenever the audit phase runs to completion (\<^verbatim>\<open>_runAudits\<close> returns), the list of
  results is as long as the list of audit definitions, and the result at each position
  has the id of the definition at that position. The ids are those that the modelled
  \<^verbatim>\<open>generateAuditResult\<close> and \<^verbatim>\<open>generateErrorAuditResult\<close> give.
\<close>

theorem runAudits_results_in_order:
  assumes "runAudits sett audits arts runWarnings lg = (Inr results, runWarnings', lg')"
  shows "length results = length audits
       \<and> (\<forall>i < length audits.
             ar_id (results ! i) = meta_id (meta (implementation (audits ! i))))"
proof -
  have ids: "map ar_id results = map (\<lambda>defn. meta_id (meta (implementation defn))) audits"
    using runAudits_ok [OF assms] by (simp add: loop_ids)
  have len: "length results = length audits"
    using ids by (metis length_map)
  moreover have "ar_id (results ! i) = meta_id (meta (implementation (audits ! i)))"
    if "i < length audits" for i
    using that ids len by (metis nth_map)
  ultimately show ?thesis by blast
qed

theorem runAudits_results_in_order_witness:
  "runAudits [] [viewportAudit, isOnHttpsAudit, fontSizeAudit] artifacts_gathered [] [] =
     (Inr [\<lparr>ar_id = ''viewport'', ar_score = Some 1, ar_details = Some JNull, errorMessage = None\<rparr>,
           \<lparr>ar_id = ''is-on-https'', ar_score = None, ar_details = None,
             errorMessage = Some ''The page is not secure''\<rparr>,
           \<lparr>ar_id = ''font-size'', ar_score = None, ar_details = None,
             errorMessage = Some ''Required FontSize gatherer encountered an error: NO_FCP''\<rparr>],
      [''Insecure requests found''],
      [Time ''lh:runner:auditing'', Time ''lh:audit:viewport'', TimeEnd ''lh:audit:viewport'',
       Time ''lh:audit:is-on-https'', TimeEnd ''lh:audit:is-on-https'',
       Time ''lh:audit:font-size'', TimeEnd ''lh:audit:font-size'',
       TimeEnd ''lh:runner:auditing''])
   \<and> map (\<lambda>defn. meta_id (meta (implementation defn))) [viewportAudit, isOnHttpsAudit, fontSizeAudit] =
       [''viewport'', ''is-on-https'', ''font-size'']"
proof -
  have run: "runAudits [] [viewportAudit, isOnHttpsAudit, fontSizeAudit] artifacts_gathered [] [] =
     (Inr [\<lparr>ar_id = ''viewport'', ar_score = Some 1, ar_details = Some JNull, errorMessage = None\<rparr>,
           \<lparr>ar_id = ''is-on-https'', ar_score = None, ar_details = None,
             errorMessage = Some ''The page is not secure''\<rparr>,
           \<lparr>ar_id = ''font-size'', ar_score = None, ar_details = None,
             errorMessage = Some ''Required FontSize gatherer encountered an error: NO_FCP''\<rparr>],
      [''Insecure requests found''],
      [Time ''lh:runner:auditing'', Time ''lh:audit:viewport'', TimeEnd ''lh:audit:viewport'',
       Time ''lh:audit:is-on-https'', TimeEnd ''lh:audit:is-on-https'',
       Time ''lh:audit:font-size'', TimeEnd ''lh:audit:font-size'',
       TimeEnd ''lh:runner:auditing''])"
    by (simp add: ex_defs)
  show ?thesis
    using runAudits_results_in_order [OF run] run by (simp add: viewportAudit_def isOnHttpsAudit_def fontSizeAudit_def)
qed

subsection \<open>A missing artifact fails its audit only\<close>

text \<open>
  C2. An audit that requires a missing artifact (a name that is not in the set, or
  \<^verbatim>\<open>traces\<close> without the default-pass trace) returns an error result, from every state,
  and leaves the shared members untouched: \<^verbatim>\<open>_runAudit\<close> returns, it does not throw.
  In a run that the settings check lets through, the list of results is the list of the
  run without that audit, with the error result put in at the audit's place; the
  warnings are the same too. So every other audit has its own result.
\<close>

theorem missing_artifact_is_isolated:
  assumes "\<exists>n \<in> set (requiredArtifacts (meta (implementation defn))). missingArtifact arts n"
  shows "\<exists>msg.
      (\<forall>st. runAudit defn arts sett st =
         (generateErrorAuditResult (implementation defn) msg, fst st,
          snd st @ [Time (''lh:audit:'' @ meta_id (meta (implementation defn))),
                    TimeEnd (''lh:audit:'' @ meta_id (meta (implementation defn)))]))
    \<and> errorMessage (generateErrorAuditResult (implementation defn) msg) = Some msg
    \<and> (\<not> settingsChanged arts sett \<longrightarrow>
         (\<exists>others. fst (runAudits sett (before @ after) arts ws lg) = Inr others
            \<and> fst (runAudits sett (before @ defn # after) arts ws lg) =
                Inr (take (length before) others @
                     generateErrorAuditResult (implementation defn) msg #
                     drop (length before) others)
            \<and> fst (snd (runAudits sett (before @ defn # after) arts ws lg)) =
                fst (snd (runAudits sett (before @ after) arts ws lg))))"
proof -
  have "\<not> requiredArtifactsOk arts (requiredArtifacts (meta (implementation defn)))"
    using assms by (auto simp: requiredArtifactsOk_def)
  then obtain err where
    err: "checkRequiredArtifacts (requiredArtifacts (meta (implementation defn))) arts = Some err"
    using check_None_iff by (cases "checkRequiredArtifacts (requiredArtifacts (meta (implementation defn))) arts") auto
  let ?msg = "friendly_or_message err"
  have inert: "\<And>st. runAudit defn arts sett st =
         (generateErrorAuditResult (implementation defn) ?msg, fst st,
          snd st @ [Time (''lh:audit:'' @ meta_id (meta (implementation defn))),
                    TimeEnd (''lh:audit:'' @ meta_id (meta (implementation defn)))])"
    using runAudit_check_failed [OF err] by simp
  have msg: "errorMessage (generateErrorAuditResult (implementation defn) ?msg) = Some ?msg"
    by (simp add: generateErrorAuditResult_def)
  show ?thesis
    using inert msg runAudits_insert_inert [OF inert] by blast
qed

theorem missing_artifact_is_isolated_witness:
  "''traces'' \<in> set (requiredArtifacts (meta (implementation metricsAudit)))
   \<and> missingArtifact artifacts_gathered ''traces''
   \<and> \<not> settingsChanged artifacts_gathered []
   \<and> fst (runAudits [] [viewportAudit, metricsAudit, isOnHttpsAudit] artifacts_gathered [] []) =
       Inr [\<lparr>ar_id = ''viewport'', ar_score = Some 1, ar_details = Some JNull, errorMessage = None\<rparr>,
            \<lparr>ar_id = ''metrics'', ar_score = None, ar_details = None,
              errorMessage = Some ''Required traces gatherer did not run.''\<rparr>,
            \<lparr>ar_id = ''is-on-https'', ar_score = None, ar_details = None,
              errorMessage = Some ''The page is not secure''\<rparr>]
   \<and> fst (runAudits [] [viewportAudit, isOnHttpsAudit] artifacts_gathered [] []) =
       Inr [\<lparr>ar_id = ''viewport'', ar_score = Some 1, ar_details = Some JNull, errorMessage = None\<rparr>,
            \<lparr>ar_id = ''is-on-https'', ar_score = None, ar_details = None,
              errorMessage = Some ''The page is not secure''\<rparr>]"
  using missing_artifact_is_isolated [of metricsAudit artifacts_gathered "[]" "[viewportAudit]" "[isOnHttpsAudit]" "[]" "[]"]
  by (simp add: ex_defs)

subsection \<open>An artifact that is an error fails the audits that require it\<close>

text \<open>
  C3, as the code has it. Let \<open>x\<close>, other than \<^verbatim>\<open>traces\<close>, be required by the audit and
  hold an error whose message is \<open>msg\<close>, with every name declared before \<open>x\<close> in good
  shape. Then the audit's result is the error result with the message
  \<^verbatim>\<open>Required x gatherer encountered an error: msg\<close>, which contains \<open>msg\<close>; the shared
  members are untouched, so the run goes on to the next audit as if this one had not
  been there. An audit that does not require \<open>x\<close> returns, from the same state, the same
  result whatever \<open>x\<close> holds.
\<close>

theorem first_artifact_error_becomes_audit_error:
  assumes names: "requiredArtifacts (meta (implementation defn)) = pre @ x # post"
    and pre: "requiredArtifactsOk arts pre"
    and x: "x \<noteq> ''traces''"
    and marker: "artifactError (artifact_at arts x) = Some msg"
  shows "(\<forall>st. runAudit defn arts sett st =
           (generateErrorAuditResult (implementation defn)
              (''Required '' @ x @ '' gatherer encountered an error: '' @ msg),
            fst st,
            snd st @ [Time (''lh:audit:'' @ meta_id (meta (implementation defn))),
                      TimeEnd (''lh:audit:'' @ meta_id (meta (implementation defn)))]))
    \<and> errorMessage (generateErrorAuditResult (implementation defn)
              (''Required '' @ x @ '' gatherer encountered an error: '' @ msg)) =
         Some (''Required '' @ x @ '' gatherer encountered an error: '' @ msg)
    \<and> sublist msg (''Required '' @ x @ '' gatherer encountered an error: '' @ msg)
    \<and> (\<forall>other v st. x \<notin> set (requiredArtifacts (meta (implementation other))) \<longrightarrow>
          runAudit other (set_prop x v arts) sett st = runAudit other arts sett st)"
proof -
  let ?m = "''Required '' @ x @ '' gatherer encountered an error: '' @ msg"
  have err: "checkRequiredArtifacts (requiredArtifacts (meta (implementation defn))) arts =
      Some (new_Error ?m)"
    unfolding names using check_first_error [OF pre x marker] .
  have fm: "friendly_or_message (new_Error ?m) = ?m"
    by (simp add: friendly_or_message_def new_Error_def)
  have 1: "\<forall>st. runAudit defn arts sett st =
           (generateErrorAuditResult (implementation defn) ?m, fst st,
            snd st @ [Time (''lh:audit:'' @ meta_id (meta (implementation defn))),
                      TimeEnd (''lh:audit:'' @ meta_id (meta (implementation defn)))])"
    using runAudit_check_failed [OF err] unfolding fm by simp
  have 2: "errorMessage (generateErrorAuditResult (implementation defn) ?m) = Some ?m"
    by (simp add: generateErrorAuditResult_def)
  have 3: "sublist msg ?m"
    by (metis append.assoc append_Nil2 sublist_appendI)
  have 4: "runAudit other (set_prop x v arts) sett st = runAudit other arts sett st"
    if "x \<notin> set (requiredArtifacts (meta (implementation other)))" for other v st
  proof (rule runAudit_cong, rule ballI)
    fix n assume "n \<in> set (requiredArtifacts (meta (implementation other)))"
    then have "n \<noteq> x" using that by auto
    then show "artifact_at (set_prop x v arts) n = artifact_at arts n"
      by (rule artifact_at_set_prop_other)
  qed
  show ?thesis using 1 2 3 4 by blast
qed

theorem first_artifact_error_becomes_audit_error_witness:
  "requiredArtifacts (meta (implementation fontSizeAudit)) =
     [''ViewportDimensions''] @ ''FontSize'' # [''MetaElements'']
   \<and> requiredArtifactsOk artifacts_gathered [''ViewportDimensions'']
   \<and> ''FontSize'' \<noteq> ''traces''
   \<and> artifactError (artifact_at artifacts_gathered ''FontSize'') = Some ''NO_FCP''
   \<and> runAudit fontSizeAudit artifacts_gathered []
        (\<lparr>LighthouseRunWarnings = [], computedCache = []\<rparr>, []) =
       (\<lparr>ar_id = ''font-size'', ar_score = None, ar_details = None,
          errorMessage = Some ''Required FontSize gatherer encountered an error: NO_FCP''\<rparr>,
        \<lparr>LighthouseRunWarnings = [], computedCache = []\<rparr>,
        [Time ''lh:audit:font-size'', TimeEnd ''lh:audit:font-size''])
   \<and> ''FontSize'' \<notin> set (requiredArtifacts (meta (implementation viewportAudit)))
   \<and> runAudit viewportAudit (set_prop ''FontSize'' (Data (JNum 12)) artifacts_gathered) []
        (\<lparr>LighthouseRunWarnings = [], computedCache = []\<rparr>, []) =
       runAudit viewportAudit artifacts_gathered []
        (\<lparr>LighthouseRunWarnings = [], computedCache = []\<rparr>, [])"
  using first_artifact_error_becomes_audit_error [of fontSizeAudit "[''ViewportDimensions'']" "''FontSize''" "[''MetaElements'']"
      artifacts_gathered "''NO_FCP''" "[]"]
  by (simp add: ex_defs)

text \<open>
  C3, as the claim words it, fails: the loop stops at the first required artifact that
  is missing or an error. This audit requires \<^verbatim>\<open>FontSize\<close> and, after it,
  \<^verbatim>\<open>MetaElements\<close>; both hold errors, and the result's message is made from the
  first one and does not contain the message of the second.
\<close>

theorem later_artifact_error_not_reported:
  "''MetaElements'' \<in> set (requiredArtifacts (meta (implementation fontSizeAudit)))
   \<and> artifact_at artifacts_gathered ''MetaElements'' =
       Some (ErrorArtifact \<lparr>message = ''Protocol error'', friendlyMessage = None\<rparr>)
   \<and> errorMessage (fst (runAudit fontSizeAudit artifacts_gathered []
        (\<lparr>LighthouseRunWarnings = [], computedCache = []\<rparr>, []))) =
       Some ''Required FontSize gatherer encountered an error: NO_FCP''
   \<and> \<not> sublist ''Protocol error'' ''Required FontSize gatherer encountered an error: NO_FCP''"
  by (simp add: ex_defs sublist_code(3))

subsection \<open>The audit sees its required artifacts only\<close>

text \<open>
  C9. When all required artifacts are in good shape (each is in the set and is no
  error, and \<^verbatim>\<open>traces\<close>, when required, has its default-pass trace), the result of the
  audit is made from the call of its \<^verbatim>\<open>audit\<close> function on the picked artifacts and the
  context. The picked artifacts have exactly the declared names as keys, each once, and
  hold under each the value of the full set; under any other name they hold nothing.
\<close>

theorem audit_receives_required_artifacts_only:
  assumes "requiredArtifactsOk arts (requiredArtifacts (meta (implementation defn)))"
  shows "auditOutcome defn arts sett shared =
      (case audit (implementation defn)
              (pickRequiredArtifacts (requiredArtifacts (meta (implementation defn))) arts)
              \<lparr>LighthouseRunWarnings = LighthouseRunWarnings shared,
               computedCache = computedCache shared, settings = sett,
               options = Object_assign (Object_assign [] (defaultOptions (implementation defn)))
                           (defn_options defn)\<rparr> of
         (Inr product, after) \<Rightarrow> (generateAuditResult (implementation defn) product, after)
       | (Inl err, after) \<Rightarrow>
           (generateErrorAuditResult (implementation defn) (friendly_or_message err), after))
    \<and> set (map fst (pickRequiredArtifacts (requiredArtifacts (meta (implementation defn))) arts)) =
        set (requiredArtifacts (meta (implementation defn)))
    \<and> distinct (map fst (pickRequiredArtifacts (requiredArtifacts (meta (implementation defn))) arts))
    \<and> (\<forall>n. artifact_at (pickRequiredArtifacts (requiredArtifacts (meta (implementation defn))) arts) n =
            (if n \<in> set (requiredArtifacts (meta (implementation defn)))
             then artifact_at arts n else None))"
proof -
  let ?names = "requiredArtifacts (meta (implementation defn))"
  have ok: "checkRequiredArtifacts ?names arts = None"
    using assms by (simp add: check_None_iff)
  have present: "\<forall>n \<in> set ?names. artifact_at arts n \<noteq> None"
    using assms by (auto simp: requiredArtifactsOk_def missingArtifact_def)
  have 1: "auditOutcome defn arts sett shared =
      (case audit (implementation defn) (pickRequiredArtifacts ?names arts)
              \<lparr>LighthouseRunWarnings = LighthouseRunWarnings shared,
               computedCache = computedCache shared, settings = sett,
               options = Object_assign (Object_assign [] (defaultOptions (implementation defn)))
                           (defn_options defn)\<rparr> of
         (Inr product, after) \<Rightarrow> (generateAuditResult (implementation defn) product, after)
       | (Inl err, after) \<Rightarrow>
           (generateErrorAuditResult (implementation defn) (friendly_or_message err), after))"
    by (simp add: auditOutcome_def ok Let_def)
  have 2: "set (map fst (pickRequiredArtifacts ?names arts)) = set ?names"
    unfolding pickRequiredArtifacts_def pick_fold_keys using present by auto
  have 3: "distinct (map fst (pickRequiredArtifacts ?names arts))"
    unfolding pickRequiredArtifacts_def by (rule pick_fold_distinct) simp
  have 4: "artifact_at (pickRequiredArtifacts ?names arts) n =
            (if n \<in> set ?names then artifact_at arts n else None)" for n
    unfolding pickRequiredArtifacts_def artifact_at_def [of "fold _ _ _"] pick_fold_map_of
    using present by auto
  show ?thesis using 1 2 3 4 by blast
qed

theorem audit_receives_required_artifacts_only_witness:
  "requiredArtifactsOk artifacts_gathered (requiredArtifacts (meta (implementation viewportAudit)))
   \<and> pickRequiredArtifacts (requiredArtifacts (meta (implementation viewportAudit))) artifacts_gathered =
       [(''ViewportDimensions'', Data (JObj [(''innerWidth'', JNum 412)]))]
   \<and> auditOutcome viewportAudit artifacts_gathered [] \<lparr>LighthouseRunWarnings = [], computedCache = []\<rparr> =
       (\<lparr>ar_id = ''viewport'', ar_score = Some 1, ar_details = Some JNull, errorMessage = None\<rparr>,
        \<lparr>LighthouseRunWarnings = [], computedCache = []\<rparr>)"
  using audit_receives_required_artifacts_only [of artifacts_gathered viewportAudit "[]" "\<lparr>LighthouseRunWarnings = [], computedCache = []\<rparr>"]
  by (simp add: ex_defs)

section \<open>Objects built by assignment\<close>

lemma map_of_Object_assign:
  "map_of (Object_assign target source) = map_of target ++ map_of (rev source)"
  unfolding Object_assign_def
proof (induction source arbitrary: target)
  case Nil show ?case by simp
next
  case (Cons kv source)
  obtain k v where kv: "kv = (k, v)" by (cases kv)
  have "map_of (set_prop k v target) ++ map_of (rev source) =
        map_of target ++ (map_of [(k, v)] ++ map_of (rev source))"
    by (simp add: map_of_set_prop fun_eq_iff map_add_def split: option.splits)
  then show ?case using Cons.IH [of "set_prop k v target"]
    by (simp add: kv)
qed

lemma keys_Object_assign:
  "set (map fst (Object_assign target source)) = set (map fst target) \<union> set (map fst source)"
  unfolding Object_assign_def
proof (induction source arbitrary: target)
  case Nil show ?case by simp
next
  case (Cons kv source)
  obtain k v where kv: "kv = (k, v)" by (cases kv)
  show ?case using Cons.IH [of "set_prop k v target"] key_set_set_prop [of k v target]
    by (auto simp: kv simp del: set_map)
qed

lemma distinct_Object_assign:
  "distinct (map fst target) \<Longrightarrow> distinct (map fst (Object_assign target source))"
  unfolding Object_assign_def
proof (induction source arbitrary: target)
  case Nil then show ?case by simp
next
  case (Cons kv source)
  obtain k v where kv: "kv = (k, v)" by (cases kv)
  show ?case using Cons.IH [of "set_prop k v target"] Cons.prems
    by (simp add: kv distinct_set_prop)
qed

lemma new_Map_Object_assign: "new_Map keyValues = Object_assign [] keyValues"
  by (simp add: new_Map_def Object_assign_def)

lemma map_of_keyed:
  "map_of (map (\<lambda>e. (f e, e)) xs) t = List.find (\<lambda>e. f e = t) xs"
  by (induction xs) auto







lemma toFixed2_hundredths: "\<exists>n::int. toFixed2 x = of_int n / 100"
  by (cases "x < 0") (auto simp: toFixed2_def intro: exI [of _ "- \<lfloor>(- x) * 100 + 1 / 2\<rfloor>"])

lemma round_nonneg:
  fixes y :: rat
  shows "\<bar>of_int \<lfloor>y * 100 + 1 / 2\<rfloor> / 100 - y\<bar> \<le> 1 / 200"
proof -
  let ?n = "of_int \<lfloor>y * 100 + 1 / 2\<rfloor> :: rat"
  have "?n \<le> y * 100 + 1 / 2" by (rule of_int_floor_le)
  moreover have "y * 100 + 1 / 2 < ?n + 1" by linarith
  ultimately have "\<bar>?n - y * 100\<bar> \<le> 1 / 2" by linarith
  then have "\<bar>?n - y * 100\<bar> / 100 \<le> (1 / 2) / 100"
    by (simp add: divide_right_mono)
  moreover have "\<bar>?n - y * 100\<bar> / 100 = \<bar>?n / 100 - y\<bar>"
    by (simp add: abs_if field_simps)
  ultimately show ?thesis by simp
qed

lemma toFixed2_close: "\<bar>toFixed2 x - x\<bar> \<le> 1 / 200"
proof (cases "x < 0")
  case True
  have "\<bar>- (of_int \<lfloor>(- x) * 100 + 1 / 2\<rfloor> / 100) - x\<bar> =
        \<bar>of_int \<lfloor>(- x) * 100 + 1 / 2\<rfloor> / 100 - (- x)\<bar>"
    by (simp add: abs_minus_commute)
  then show ?thesis using True round_nonneg [of "- x"] by (simp add: toFixed2_def)
next
  case False
  then show ?thesis using round_nonneg [of x] by (simp add: toFixed2_def)
qed


section \<open>The timing aggregator\<close>

lemma new_Map_distinct: "distinct (map fst (new_Map kvs))"
  by (simp add: new_Map_Object_assign distinct_Object_assign)

lemma new_Map_lookup: "map_of (new_Map kvs) = map_of (rev kvs)"
  by (simp add: new_Map_Object_assign map_of_Object_assign)

lemma new_Map_keys: "set (map fst (new_Map kvs)) = set (map fst kvs)"
  by (simp add: new_Map_Object_assign keys_Object_assign del: set_map)

lemma new_Map_member:
  assumes "(k, v) \<in> set (new_Map kvs)"
  shows "map_of (rev kvs) k = Some v"
proof -
  have "map_of (new_Map kvs) k = Some v"
    using assms new_Map_distinct [of kvs] by simp
  then show ?thesis by (simp add: new_Map_lookup)
qed

lemma keyed_member:
  assumes "(k, e) \<in> set (new_Map (map (\<lambda>entry. (startTime entry, entry)) es))"
  shows "k = startTime e \<and> List.find (\<lambda>e'. startTime e' = startTime e) (rev es) = Some e"
proof -
  have look: "map_of (rev (map (\<lambda>entry. (startTime entry, entry)) es)) k = Some e"
    using new_Map_member [OF assms] .
  then have "(k, e) \<in> set (rev (map (\<lambda>entry. (startTime entry, entry)) es))"
    by (rule map_of_SomeD)
  then have k: "k = startTime e" by auto
  have "map_of (map (\<lambda>entry. (startTime entry, entry)) (rev es)) k = Some e"
    using look by (simp add: rev_map)
  then have "List.find (\<lambda>e'. startTime e' = k) (rev es) = Some e"
    by (simp add: map_of_keyed)
  then show ?thesis using k by simp
qed

lemma deduped_keys:
  "map startTime (dedupedByStartTime es) =
   map fst (new_Map (map (\<lambda>entry. (startTime entry, entry)) es))"
  unfolding dedupedByStartTime_def Object_values_def map_map
  by (rule map_cong) (auto dest: keyed_member)

lemma deduped_distinct: "distinct (map startTime (dedupedByStartTime es))"
  by (simp only: deduped_keys new_Map_distinct)

lemma deduped_startTimes: "set (map startTime (dedupedByStartTime es)) = set (map startTime es)"
  by (simp only: deduped_keys new_Map_keys) (simp add: comp_def)

lemma deduped_last:
  assumes "e \<in> set (dedupedByStartTime es)"
  shows "List.find (\<lambda>e'. startTime e' = startTime e) (rev es) = Some e"
proof -
  from assms obtain k where "(k, e) \<in> set (new_Map (map (\<lambda>entry. (startTime entry, entry)) es))"
    by (auto simp: dedupedByStartTime_def Object_values_def)
  then show ?thesis using keyed_member by blast
qed

lemma getTiming_entries:
  "entries (getTiming arts fromRunner) =
     map roundEntry (dedupedByStartTime (artifactTiming arts @ fromRunner))"
  by (simp add: getTiming_def dedupedByStartTime_def artifactTiming_def Let_def)

lemma getTiming_total:
  "total (getTiming arts fromRunner) =
     (case List.find (\<lambda>e. name e = ''lh:runner:run'') (entries (getTiming arts fromRunner)) of
        Some e \<Rightarrow> duration e
      | None \<Rightarrow> 0)"
  by (simp add: getTiming_def Let_def split: option.splits)

text \<open>
  C5. The entries that the artifacts bring and the runner's own entries are
  concatenated and keyed by start time. Of the entries that survive, no two have the
  same start time, every start time of the input is the start time of one, and each is
  the last entry of the input with its start time. The output is the survivors with
  start time and duration rounded to two decimal places (a number of hundredths, at
  most half a hundredth away; numbers are exact rationals here); name and entry type
  are kept. The total is the duration of the first output entry named
  \<^verbatim>\<open>lh:runner:run\<close>, and zero when there is none.
\<close>

theorem getTiming_dedupes_and_rounds:
  "entries (getTiming arts fromRunner) =
     map roundEntry (dedupedByStartTime (artifactTiming arts @ fromRunner))
   \<and> distinct (map startTime (dedupedByStartTime (artifactTiming arts @ fromRunner)))
   \<and> set (map startTime (dedupedByStartTime (artifactTiming arts @ fromRunner))) =
       set (map startTime (artifactTiming arts @ fromRunner))
   \<and> (\<forall>e \<in> set (dedupedByStartTime (artifactTiming arts @ fromRunner)).
         List.find (\<lambda>e'. startTime e' = startTime e) (rev (artifactTiming arts @ fromRunner)) = Some e)
   \<and> (\<forall>e. roundEntry e =
           \<lparr>startTime = toFixed2 (startTime e), name = name e,
            duration = toFixed2 (duration e), entryType = entryType e\<rparr>)
   \<and> (\<forall>x. (\<exists>n::int. toFixed2 x = of_int n / 100) \<and> \<bar>toFixed2 x - x\<bar> \<le> 1 / 200)
   \<and> total (getTiming arts fromRunner) =
       (case List.find (\<lambda>e. name e = ''lh:runner:run'') (entries (getTiming arts fromRunner)) of
          Some e \<Rightarrow> duration e
        | None \<Rightarrow> 0)"
proof (intro conjI allI ballI)
  show "entries (getTiming arts fromRunner) =
     map roundEntry (dedupedByStartTime (artifactTiming arts @ fromRunner))"
    by (rule getTiming_entries)
  show "distinct (map startTime (dedupedByStartTime (artifactTiming arts @ fromRunner)))"
    by (rule deduped_distinct)
  show "set (map startTime (dedupedByStartTime (artifactTiming arts @ fromRunner))) =
       set (map startTime (artifactTiming arts @ fromRunner))"
    by (rule deduped_startTimes)
  show "List.find (\<lambda>e'. startTime e' = startTime e) (rev (artifactTiming arts @ fromRunner)) = Some e"
    if "e \<in> set (dedupedByStartTime (artifactTiming arts @ fromRunner))" for e
    using that by (rule deduped_last)
  show "roundEntry e =
           \<lparr>startTime = toFixed2 (startTime e), name = name e,
            duration = toFixed2 (duration e), entryType = entryType e\<rparr>" for e
    by (simp add: roundEntry_def)
  show "\<exists>n::int. toFixed2 x = of_int n / 100" for x
    by (rule toFixed2_hundredths)
  show "\<bar>toFixed2 x - x\<bar> \<le> 1 / 200" for x
    by (rule toFixed2_close)
  show "total (getTiming arts fromRunner) =
       (case List.find (\<lambda>e. name e = ''lh:runner:run'') (entries (getTiming arts fromRunner)) of
          Some e \<Rightarrow> duration e
        | None \<Rightarrow> 0)"
    by (rule getTiming_total)
qed

lemma toFixed2_examples:
  "toFixed2 (1 / 8) = 13 / 100" "toFixed2 (5 / 16) = 31 / 100" "toFixed2 (117 / 16) = 731 / 100"
  "toFixed2 (2469 / 2) = 2469 / 2" "toFixed2 2500 = 2500" "toFixed2 3 = 3" "toFixed2 0 = 0"
  by (simp_all add: toFixed2_def floor_eq_iff)

lemma getTiming_example:
  "getTiming artifacts_timed runnerEntries =
     \<lparr>entries =
        [\<lparr>startTime = 13 / 100, name = ''lh:init:connect'', duration = 2500, entryType = ''measure''\<rparr>,
         \<lparr>startTime = 31 / 100, name = ''lh:gather:loadPage'', duration = 3, entryType = ''measure''\<rparr>,
         \<lparr>startTime = 0, name = ''lh:runner:run'', duration = 731 / 100, entryType = ''measure''\<rparr>],
      total = 731 / 100\<rparr>"
  by (simp add: getTiming_def artifact_at_def new_Map_def Object_values_def roundEntry_def
      toFixed2_examples artifacts_timed_def runnerEntries_def Let_def)

theorem getTiming_dedupes_and_rounds_witness:
  "getTiming artifacts_timed runnerEntries =
     \<lparr>entries =
        [\<lparr>startTime = 13 / 100, name = ''lh:init:connect'', duration = 2500, entryType = ''measure''\<rparr>,
         \<lparr>startTime = 31 / 100, name = ''lh:gather:loadPage'', duration = 3, entryType = ''measure''\<rparr>,
         \<lparr>startTime = 0, name = ''lh:runner:run'', duration = 731 / 100, entryType = ''measure''\<rparr>],
      total = 731 / 100\<rparr>
   \<and> dedupedByStartTime (artifactTiming artifacts_timed @ runnerEntries) =
       [\<lparr>startTime = 1 / 8, name = ''lh:init:connect'', duration = 2500, entryType = ''measure''\<rparr>,
        \<lparr>startTime = 5 / 16, name = ''lh:gather:loadPage'', duration = 3, entryType = ''measure''\<rparr>,
        \<lparr>startTime = 0, name = ''lh:runner:run'', duration = 117 / 16, entryType = ''measure''\<rparr>]"
proof -
  have d: "dedupedByStartTime (artifactTiming artifacts_timed @ runnerEntries) =
       [\<lparr>startTime = 1 / 8, name = ''lh:init:connect'', duration = 2500, entryType = ''measure''\<rparr>,
        \<lparr>startTime = 5 / 16, name = ''lh:gather:loadPage'', duration = 3, entryType = ''measure''\<rparr>,
        \<lparr>startTime = 0, name = ''lh:runner:run'', duration = 117 / 16, entryType = ''measure''\<rparr>]"
    by (simp add: dedupedByStartTime_def artifactTiming_def artifact_at_def new_Map_def
        Object_values_def artifacts_timed_def runnerEntries_def)
  have "entries (getTiming artifacts_timed runnerEntries) =
     map roundEntry (dedupedByStartTime (artifactTiming artifacts_timed @ runnerEntries))"
    using getTiming_dedupes_and_rounds [of artifacts_timed runnerEntries] by blast
  then show ?thesis using d getTiming_example by simp
qed

section \<open>The phases of a run\<close>

lemma auditsExecuted_append [simp]:
  "auditsExecuted (xs @ ys) = auditsExecuted xs @ auditsExecuted ys"
  by (simp add: auditsExecuted_def)

lemma auditsExecuted_runner [simp]:
  "auditsExecuted [Time ''lh:runner:auditing''] = []"
  "auditsExecuted [Time ''lh:runner:run''] = []"
  by (simp_all add: auditsExecuted_def isAuditEvent_def)



























subsection \<open>The settings check\<close>




subsection \<open>Analyze-only mode and the requested URL\<close>



subsection \<open>Collect-only mode\<close>




end
